theory Spec2Isabelle
  imports Complex_Main "HOL-Library.Word" "HOL-Library.Log_Nat" "HOL-Library.Sublist"
begin

section \<open>Python values, exceptions and effects\<close>

text \<open>
  The oracle is Python. Its payloads and service answers are JSON documents as
  \<open>resp.json()\<close> returns them: \<open>None\<close>, booleans, unbounded integers, floats, strings,
  lists and dictionaries. A float is kept as the exact rational it stands for, or one of
  the three special values. A dictionary is an association list read with \<open>map_of\<close>.
\<close>

type_synonym bytes = "8 word list"

datatype pyfloat = Finite rat | PosInf | NegInf | NaN

datatype json =
    JNull
  | JBool bool
  | JInt int
  | JFloat pyfloat
  | JStr string
  | JArr "json list"
  | JObj "(string \<times> json) list"

text \<open>
  Every exception of the model is a subclass of Python's \<open>Exception\<close>, so an
  \<open>except Exception\<close> clause catches each of them. \<open>RuntimeError\<close> carries
  the function name and the status of its message, \<open>Exception\<close> its message.
\<close>

datatype exn =
    KeyError string
  | TypeError
  | ValueError
  | AttributeError
  | OverflowError
  | RequestException
  | HTTPError nat
  | JSONDecodeError
  | Web3Exception
  | RuntimeError string nat
  | Exception string

record tx =
  tx_function :: string
  tx_args :: "bytes list"
  tx_nonce :: nat
  tx_gasPrice :: nat
  tx_gas :: nat

text \<open>
  What the process does to the outside, in the order it does it: network requests, clock
  reads, signatures, node calls, log lines, and the additions to the \<open>processed\<close> set.
  \<open>Enter\<close> marks the call of one of the four check functions.
\<close>

datatype action =
    HttpGet bytes
  | HttpPost string string json
  | ClockRead
  | Enter string
  | LogCheck string bool
  | LogAuditError bytes exn
  | LogRiskError exn
  | LogNewIntent bytes
  | LogAuditFailed
  | SaltCall
  | SignHash bytes
  | NodeCall string string
  | SendRawTransaction tx
  | LogSent string bytes
  | LogMined string nat
  | LogExecError exn
  | ProcessedAdd bytes
  | LogMonitorError exn

text \<open>
  A computation returns a value or raises, and leaves the actions it performed before
  that: the pair of an \<open>exn + 'a\<close> and the list of its actions.
\<close>

type_synonym 'a io = "(exn + 'a) \<times> action list"

definition ret :: "'a \<Rightarrow> 'a io" where
  "ret x = (Inr x, [])"

definition lift :: "exn + 'a \<Rightarrow> 'a io" where
  "lift r = (r, [])"

definition emit :: "action \<Rightarrow> unit io" where
  "emit a = (Inr (), [a])"

definition bind :: "'a io \<Rightarrow> ('a \<Rightarrow> 'b io) \<Rightarrow> 'b io" where
  "bind m f =
     (case m of
        (Inl e, t) \<Rightarrow> (Inl e, t)
      | (Inr x, t) \<Rightarrow> (case f x of (r, t') \<Rightarrow> (r, t @ t')))"

definition try_except :: "'a io \<Rightarrow> (exn \<Rightarrow> 'a io) \<Rightarrow> 'a io" where
  "try_except m h =
     (case m of
        (Inl e, t) \<Rightarrow> (case h e of (r, t') \<Rightarrow> (r, t @ t'))
      | (Inr x, t) \<Rightarrow> (Inr x, t))"

subsection \<open>Built-in operations on JSON values\<close>

text \<open>\<open>d.get(k, default)\<close>: only a dictionary has the method.\<close>

definition dict_get :: "json \<Rightarrow> string \<Rightarrow> json \<Rightarrow> exn + json" where
  "dict_get d k dflt =
     (case d of
        JObj kvs \<Rightarrow> Inr (case map_of kvs k of None \<Rightarrow> dflt | Some v \<Rightarrow> v)
      | _ \<Rightarrow> Inl AttributeError)"

text \<open>\<open>d[k]\<close> with a string key: \<open>KeyError\<close> on a dictionary without the key,
  \<open>TypeError\<close> on every other value.\<close>

definition dict_getitem :: "json \<Rightarrow> string \<Rightarrow> exn + json" where
  "dict_getitem d k =
     (case d of
        JObj kvs \<Rightarrow> (case map_of kvs k of None \<Rightarrow> Inl (KeyError k) | Some v \<Rightarrow> Inr v)
      | _ \<Rightarrow> Inl TypeError)"

text \<open>
  \<open>int(s)\<close> on a string: surrounding whitespace is dropped, one sign is allowed, then
  decimal digits, where a single underscore may stand between two digits.
\<close>

definition is_space :: "char \<Rightarrow> bool" where
  "is_space c = ((of_char c :: nat) \<in> {9, 10, 11, 12, 13, 28, 29, 30, 31, 32, 133, 160})"

definition strip :: "string \<Rightarrow> string" where
  "strip s = rev (dropWhile is_space (rev (dropWhile is_space s)))"

definition digit_val :: "char \<Rightarrow> nat option" where
  "digit_val c =
     (let n = (of_char c :: nat) in if 48 \<le> n \<and> n \<le> 57 then Some (n - 48) else None)"

fun digits_acc :: "nat \<Rightarrow> string \<Rightarrow> nat option" where
  "digits_acc acc [] = Some acc"
| "digits_acc acc [c] =
     (case digit_val c of None \<Rightarrow> None | Some v \<Rightarrow> Some (10 * acc + v))"
| "digits_acc acc (c # d # ds) =
     (if c = CHR ''_'' then
        (case digit_val d of None \<Rightarrow> None | Some v \<Rightarrow> digits_acc (10 * acc + v) ds)
      else
        (case digit_val c of None \<Rightarrow> None | Some v \<Rightarrow> digits_acc (10 * acc + v) (d # ds)))"

definition unsigned_of_str :: "string \<Rightarrow> nat option" where
  "unsigned_of_str s =
     (case s of
        [] \<Rightarrow> None
      | c # cs \<Rightarrow> (case digit_val c of None \<Rightarrow> None | Some v \<Rightarrow> digits_acc v cs))"

definition int_of_str :: "string \<Rightarrow> int option" where
  "int_of_str s =
     (case strip s of
        [] \<Rightarrow> None
      | c # cs \<Rightarrow>
          if c = CHR ''-'' then map_option (\<lambda>n. - int n) (unsigned_of_str cs)
          else if c = CHR ''+'' then map_option int (unsigned_of_str cs)
          else map_option int (unsigned_of_str (c # cs)))"

text \<open>\<open>int(x)\<close> on a float truncates toward zero.\<close>

definition trunc :: "rat \<Rightarrow> int" where
  "trunc q = (if 0 \<le> q then \<lfloor>q\<rfloor> else \<lceil>q\<rceil>)"

definition py_int_of_float :: "pyfloat \<Rightarrow> exn + int" where
  "py_int_of_float x =
     (case x of
        Finite q \<Rightarrow> Inr (trunc q)
      | NaN \<Rightarrow> Inl ValueError
      | _ \<Rightarrow> Inl OverflowError)"

definition py_int :: "json \<Rightarrow> exn + int" where
  "py_int v =
     (case v of
        JInt i \<Rightarrow> Inr i
      | JBool b \<Rightarrow> Inr (if b then 1 else 0)
      | JFloat x \<Rightarrow> py_int_of_float x
      | JStr s \<Rightarrow> (case int_of_str s of None \<Rightarrow> Inl ValueError | Some i \<Rightarrow> Inr i)
      | _ \<Rightarrow> Inl TypeError)"

text \<open>\<open>s.upper()\<close>: only a string has the method; the letters a to z are raised.\<close>

definition upper_char :: "char \<Rightarrow> char" where
  "upper_char c =
     (case map_of (zip ''abcdefghijklmnopqrstuvwxyz'' ''ABCDEFGHIJKLMNOPQRSTUVWXYZ'') c of
        None \<Rightarrow> c
      | Some u \<Rightarrow> u)"

definition py_upper :: "json \<Rightarrow> exn + string" where
  "py_upper v = (case v of JStr s \<Rightarrow> Inr (map upper_char s) | _ \<Rightarrow> Inl AttributeError)"

text \<open>\<open>score < n\<close> for an integer \<open>n\<close>: numbers (booleans among them) compare, every
  other value raises \<open>TypeError\<close>; a NaN compares false.\<close>

definition py_lt_int :: "json \<Rightarrow> int \<Rightarrow> exn + bool" where
  "py_lt_int v n =
     (case v of
        JInt i \<Rightarrow> Inr (i < n)
      | JBool b \<Rightarrow> Inr ((if b then 1 else 0) < n)
      | JFloat (Finite q) \<Rightarrow> Inr (q < of_int n)
      | JFloat NegInf \<Rightarrow> Inr True
      | JFloat _ \<Rightarrow> Inr False
      | _ \<Rightarrow> Inl TypeError)"

text \<open>
  \<open>time.time() - ts\<close>: the integer is converted to a float first, which raises
  \<open>OverflowError\<close> from \<open>2^1024 - 2^970\<close> on. Below that the difference is taken as
  the exact number.
\<close>

definition float_sub_int :: "rat \<Rightarrow> int \<Rightarrow> exn + rat" where
  "float_sub_int x i =
     (if 2 ^ 1024 - 2 ^ 970 \<le> \<bar>i\<bar> then Inl OverflowError else Inr (x - of_int i))"

section \<open>The outside world\<close>

text \<open>
  The answers of everything outside the process, as one record: the payload store, the
  clock, the risk service, the chain node and the Python library calls whose code is not
  part of the repository. A theorem that quantifies over the world holds for every
  behaviour of these services.
\<close>

datatype http_result = ConnectionFailed | Response nat "json option"

record receipt =
  status :: nat
  gasUsed :: nat

record rpc =
  get_function :: "exn + unit"
  get_transaction_count :: "exn + nat"
  call_function :: "exn + unit"
  gas_price :: "exn + nat"
  build_transaction :: "exn + unit"
  estimate_gas :: "exn + nat"
  sign_transaction :: "tx \<Rightarrow> exn + bytes"
  send_raw_transaction :: "bytes \<Rightarrow> exn + bytes"
  wait_for_transaction_receipt :: "bytes \<Rightarrow> exn + receipt"

record event =
  blockNumber :: nat
  intentHash :: bytes

record world =
  requests_get :: "bytes \<Rightarrow> http_result"
  time_time :: rat
  datetime_now :: int
  fromisoformat :: "string \<Rightarrow> int option"
  to_hex :: "json \<Rightarrow> exn + string"
  requests_post :: "string \<Rightarrow> string \<Rightarrow> json \<Rightarrow> http_result"
  CONTRACT_SALT :: "exn + string"
  sign_hash :: "bytes \<Rightarrow> exn + bytes"
  node :: "string \<Rightarrow> bytes \<Rightarrow> rpc"
  create_filter :: "exn + nat"
  get_new_entries :: "nat \<Rightarrow> exn + event list"

text \<open>
  \<open>requests_get w h\<close> is the answer to the GET of the payload of intent \<open>h\<close> (the URL is a
  function of \<open>h\<close>), \<open>requests_post w url key body\<close> the answer to the POST to the risk
  service. \<open>ConnectionFailed\<close> stands for every exception of the transport, timeouts
  among them; a \<open>Response\<close> has its status code and its body, \<open>None\<close> when the body is
  not JSON. \<open>time_time\<close> is the clock in seconds, \<open>datetime_now\<close> the clock in
  microseconds; \<open>fromisoformat w s\<close> is the wall-clock reading of the parsed datetime in
  microseconds since the epoch, whatever UTC offset the string carries, and \<open>None\<close> when
  the parser raises. \<open>node w f h\<close> are the node's answers during the call
  \<open>execute_tx(f, h, ...)\<close>. \<open>create_filter\<close> is the block number that
  \<open>fromBlock="latest"\<close> resolves to, \<open>get_new_entries w n\<close> what a filter from block \<open>n\<close>
  reports.
\<close>

definition raise_for_status :: "http_result \<Rightarrow> unit io" where
  "raise_for_status r =
     (case r of
        ConnectionFailed \<Rightarrow> lift (Inl RequestException)
      | Response code _ \<Rightarrow>
          if 400 \<le> code \<and> code < 600 then lift (Inl (HTTPError code)) else ret ())"

definition response_json :: "http_result \<Rightarrow> json io" where
  "response_json r =
     (case r of
        Response _ (Some j) \<Rightarrow> ret j
      | _ \<Rightarrow> lift (Inl JSONDecodeError))"

definition http_get :: "world \<Rightarrow> bytes \<Rightarrow> http_result io" where
  "http_get w h =
     bind (emit (HttpGet h)) (\<lambda>_.
       case requests_get w h of
         ConnectionFailed \<Rightarrow> lift (Inl RequestException)
       | r \<Rightarrow> ret r)"

definition http_post :: "world \<Rightarrow> string \<Rightarrow> string \<Rightarrow> json \<Rightarrow> http_result io" where
  "http_post w url key body =
     bind (emit (HttpPost url key body)) (\<lambda>_.
       case requests_post w url key body of
         ConnectionFailed \<Rightarrow> lift (Inl RequestException)
       | r \<Rightarrow> ret r)"

section \<open>The CRA audit (ghost\_oracle.py, cra\_audit.py)\<close>

record cra_config =
  allowed_countries :: "string set"
  max_amount_wei :: int
  time_window_seconds :: int
  risk_api :: string
  risk_api_key :: "string option"

text \<open>\<open>CRA_CONFIG\<close> of ghost\_oracle.py; its argument is the environment variable
  \<open>RISK_API_KEY\<close>, the empty string when it is unset.\<close>

definition CRA_CONFIG :: "string \<Rightarrow> cra_config" where
  "CRA_CONFIG key =
     \<lparr>allowed_countries = {''US'', ''CA'', ''GB'', ''DE''},
      max_amount_wei = 10 ^ 18,
      time_window_seconds = 300,
      risk_api = ''https://api.riskservice.io/check'',
      risk_api_key = Some key\<rparr>"

text \<open>\<open>CRA_CONFIG\<close> of cra\_audit.py, whose key is \<open>None\<close>.\<close>

definition cra_audit_CRA_CONFIG :: cra_config where
  "cra_audit_CRA_CONFIG =
     \<lparr>allowed_countries = {''US'', ''CA'', ''GB'', ''DE''},
      max_amount_wei = 10 ^ 18,
      time_window_seconds = 300,
      risk_api = ''https://api.riskservice.io/check'',
      risk_api_key = None\<rparr>"

definition fetch_intent_payload :: "world \<Rightarrow> bytes \<Rightarrow> json io" where
  "fetch_intent_payload w intent_hash =
     bind (http_get w intent_hash) (\<lambda>resp.
     bind (raise_for_status resp) (\<lambda>_.
     response_json resp))"

text \<open>\<open>_check_timestamp\<close> of ghost\_oracle.py (an Isabelle name cannot start with an
  underscore).\<close>

definition check_timestamp :: "cra_config \<Rightarrow> world \<Rightarrow> json \<Rightarrow> bool io" where
  "check_timestamp cfg w payload =
     bind (emit (Enter ''timestamp'')) (\<lambda>_.
     bind (lift (dict_get payload ''timestamp'' (JInt 0))) (\<lambda>v.
     bind (lift (py_int v)) (\<lambda>ts.
     bind (emit ClockRead) (\<lambda>_.
     bind (lift (float_sub_int (time_time w) ts)) (\<lambda>age.
     ret (age \<le> of_int (time_window_seconds cfg)))))))"

text \<open>\<open>_check_timestamp\<close> of cra\_audit.py: the timestamp is an ISO string, read as
  UTC; the age is the difference of the two datetimes in seconds.\<close>

definition cra_audit_check_timestamp :: "cra_config \<Rightarrow> world \<Rightarrow> json \<Rightarrow> bool io" where
  "cra_audit_check_timestamp cfg w payload =
     bind (emit (Enter ''timestamp'')) (\<lambda>_.
     bind (lift (dict_getitem payload ''timestamp'')) (\<lambda>v.
     bind (lift (case v of
                   JStr s \<Rightarrow> (case fromisoformat w s of
                                None \<Rightarrow> Inl ValueError | Some t \<Rightarrow> Inr t)
                 | _ \<Rightarrow> Inl TypeError)) (\<lambda>ts.
     bind (emit ClockRead) (\<lambda>_.
     ret (of_int (datetime_now w - ts) / 1000000 \<le> (of_int (time_window_seconds cfg) :: rat))))))"

definition check_amount :: "cra_config \<Rightarrow> json \<Rightarrow> bool io" where
  "check_amount cfg payload =
     bind (emit (Enter ''amount'')) (\<lambda>_.
     bind (lift (dict_get payload ''amountWei'' (JInt 0))) (\<lambda>v.
     bind (lift (py_int v)) (\<lambda>amount.
     ret (amount \<le> max_amount_wei cfg))))"

definition check_geography :: "cra_config \<Rightarrow> json \<Rightarrow> bool io" where
  "check_geography cfg payload =
     bind (emit (Enter ''geography'')) (\<lambda>_.
     bind (lift (dict_get payload ''originCountry'' (JStr []))) (\<lambda>v.
     bind (lift (py_upper v)) (\<lambda>country.
     ret (country \<in> allowed_countries cfg))))"

text \<open>\<open>not api_key\<close> holds of \<open>None\<close> and of the empty string.\<close>

definition falsy :: "string option \<Rightarrow> bool" where
  "falsy k = (case k of None \<Rightarrow> True | Some s \<Rightarrow> s = [])"

definition check_external_risk :: "cra_config \<Rightarrow> world \<Rightarrow> json \<Rightarrow> bool io" where
  "check_external_risk cfg w payload =
     bind (emit (Enter ''externalRisk'')) (\<lambda>_.
     if falsy (risk_api_key cfg) then ret True
     else
       try_except
         (bind (lift (dict_getitem payload ''intentHash'')) (\<lambda>ih.
          bind (lift (to_hex w ih)) (\<lambda>hex.
          bind (lift (dict_get payload ''metadata'' (JObj []))) (\<lambda>md.
          bind (http_post w (risk_api cfg) (the (risk_api_key cfg))
                  (JObj [(''intentHash'', JStr hex), (''metadata'', md)])) (\<lambda>r.
          bind (raise_for_status r) (\<lambda>_.
          bind (response_json r) (\<lambda>body.
          bind (lift (dict_get body ''riskScore'' (JInt 0))) (\<lambda>score.
          lift (py_lt_int score 70)))))))))
         (\<lambda>e. bind (emit (LogRiskError e)) (\<lambda>_. ret False)))"

text \<open>The loop over \<open>checks.items()\<close>: one log line per entry, up to the first entry
  that is false.\<close>

fun report :: "(string \<times> bool) list \<Rightarrow> bool io" where
  "report [] = ret True"
| "report ((name, ok) # rest) =
     (if \<not> ok then (Inr False, [LogCheck name ok])
      else (case report rest of (r, t) \<Rightarrow> (r, LogCheck name ok # t)))"

text \<open>
  The body of \<open>perform_cra_audit\<close>, which the two modules share word for word; each
  module calls its own \<open>_check_timestamp\<close>, the argument \<open>check_ts\<close>. The dictionary
  \<open>checks\<close> is built first, its four values in the order they are written, then the loop
  runs over it.
\<close>

definition run_audit ::
  "(json \<Rightarrow> bool io) \<Rightarrow> cra_config \<Rightarrow> world \<Rightarrow> bytes \<Rightarrow> bool io" where
  "run_audit check_ts cfg w intent_hash =
     try_except
       (bind (fetch_intent_payload w intent_hash) (\<lambda>payload.
        bind (check_ts payload) (\<lambda>c1.
        bind (check_amount cfg payload) (\<lambda>c2.
        bind (check_geography cfg payload) (\<lambda>c3.
        bind (check_external_risk cfg w payload) (\<lambda>c4.
        report [(''timestamp'', c1), (''amount'', c2),
                (''geography'', c3), (''externalRisk'', c4)]))))))
       (\<lambda>exc. bind (emit (LogAuditError intent_hash exc)) (\<lambda>_. ret False))"

definition perform_cra_audit :: "cra_config \<Rightarrow> world \<Rightarrow> bytes \<Rightarrow> bool io" where
  "perform_cra_audit cfg w intent_hash = run_audit (check_timestamp cfg w) cfg w intent_hash"

definition cra_audit_perform_cra_audit :: "cra_config \<Rightarrow> world \<Rightarrow> bytes \<Rightarrow> bool io" where
  "cra_audit_perform_cra_audit cfg w intent_hash =
     run_audit (cra_audit_check_timestamp cfg w) cfg w intent_hash"

section \<open>The gas margin: \<open>int(estimated * 1.2)\<close>\<close>

text \<open>
  The product is a product of IEEE doubles. A double is kept as the rational it stands
  for; \<open>round_to_double\<close> is the rounding of an exact result to the nearest double, ties
  to the even mantissa, with 53 bits of mantissa, subnormals below \<open>2^-1022\<close> and
  overflow to an infinity from \<open>2^1024\<close> on.
\<close>

definition round_half_even :: "rat \<Rightarrow> int" where
  "round_half_even x =
     (let f = \<lfloor>x\<rfloor>; d = x - of_int f in
      if d < 1 / 2 then f
      else if 1 / 2 < d then f + 1
      else if even f then f else f + 1)"

text \<open>\<open>ilog2 q\<close> is the integer \<open>e\<close> with \<open>2^e \<le> q < 2^(e+1)\<close>, for a positive \<open>q\<close>.\<close>

definition ilog2 :: "rat \<Rightarrow> int" where
  "ilog2 q = (if 1 \<le> q then bitlen \<lfloor>q\<rfloor> - 1 else - bitlen (\<lceil>1 / q\<rceil> - 1))"

definition pow2 :: "int \<Rightarrow> rat" where
  "pow2 e = (if 0 \<le> e then 2 ^ nat e else 1 / 2 ^ nat (- e))"

definition round_to_double :: "rat \<Rightarrow> pyfloat" where
  "round_to_double q =
     (if q = 0 then Finite 0
      else
        let ulp = pow2 (max (ilog2 \<bar>q\<bar>) (- 1022) - 52);
            r = of_int (round_half_even (q / ulp)) * ulp
        in if 2 ^ 1024 \<le> \<bar>r\<bar> then (if 0 < q then PosInf else NegInf) else Finite r)"

text \<open>The conversion of an integer operand to a float, which raises where the
  rounding overflows.\<close>

definition float_of_int :: "int \<Rightarrow> exn + rat" where
  "float_of_int i =
     (case round_to_double (of_int i) of Finite r \<Rightarrow> Inr r | _ \<Rightarrow> Inl OverflowError)"

text \<open>The double that the literal \<open>1.2\<close> denotes, \<open>0x1.3333333333333p+0\<close>.\<close>

definition double_1_2 :: rat where
  "double_1_2 = 5404319552844595 / 4503599627370496"

text \<open>\<open>tx["gas"] = int(estimated * 1.2)\<close>, the same line in ghost\_oracle.py and in
  utils.py.\<close>

definition gas_with_margin :: "nat \<Rightarrow> exn + nat" where
  "gas_with_margin estimated =
     (case float_of_int (int estimated) of
        Inl e \<Rightarrow> Inl e
      | Inr x \<Rightarrow>
          (case py_int_of_float (round_to_double (x * double_1_2)) of
             Inl e \<Rightarrow> Inl e
           | Inr g \<Rightarrow> Inr (nat g)))"

section \<open>Signing and the transaction executor (ghost\_oracle.py, utils.py)\<close>

text \<open>A call of web3 made by \<open>execute_tx(ctx, ...)\<close> or by the monitor: the trace
  records who called what, then the call returns or raises as the world says.\<close>

definition node_call :: "string \<Rightarrow> string \<Rightarrow> exn + 'a \<Rightarrow> 'a io" where
  "node_call ctx name r = bind (emit (NodeCall ctx name)) (\<lambda>_. lift r)"

text \<open>
  The lines the two \<open>execute_tx\<close> share, from \<open>getattr\<close> to the check of the receipt's
  status: the function is looked up, the nonce read, the call built with the gas price,
  the gas estimated and the margin applied, the transaction signed and sent, the receipt
  awaited. The sender address and the key are those of the process and are left out of
  the record \<open>tx\<close>.
\<close>

definition submit :: "world \<Rightarrow> string \<Rightarrow> bytes \<Rightarrow> bytes list \<Rightarrow> receipt io" where
  "submit w function_name intent_hash args =
     (let n = node w function_name intent_hash in
      bind (node_call function_name ''getattr'' (get_function n)) (\<lambda>_.
      bind (node_call function_name ''get_transaction_count'' (get_transaction_count n)) (\<lambda>nonce.
      bind (lift (call_function n)) (\<lambda>_.
      bind (node_call function_name ''gas_price'' (gas_price n)) (\<lambda>price.
      bind (node_call function_name ''build_transaction'' (build_transaction n)) (\<lambda>_.
      bind (node_call function_name ''estimate_gas'' (estimate_gas n)) (\<lambda>estimated.
      bind (lift (gas_with_margin estimated)) (\<lambda>gas.
      let t = \<lparr>tx_function = function_name, tx_args = args, tx_nonce = nonce,
               tx_gasPrice = price, tx_gas = gas\<rparr> in
      bind (lift (sign_transaction n t)) (\<lambda>signed.
      bind (emit (SendRawTransaction t)) (\<lambda>_.
      bind (lift (send_raw_transaction n signed)) (\<lambda>tx_hash.
      bind (emit (LogSent function_name tx_hash)) (\<lambda>_.
      bind (node_call function_name ''wait_for_transaction_receipt''
              (wait_for_transaction_receipt n tx_hash)) (\<lambda>receipt.
      if status receipt \<noteq> 1 then lift (Inl (RuntimeError function_name (status receipt)))
      else ret receipt)))))))))))))"

text \<open>\<open>sign_intent\<close> and \<open>execute_tx\<close> of ghost\_oracle.py.\<close>

definition sign_intent :: "world \<Rightarrow> bytes \<Rightarrow> bytes io" where
  "sign_intent w intent_hash =
     bind (emit (SignHash intent_hash)) (\<lambda>_. lift (sign_hash w intent_hash))"

definition execute_tx :: "world \<Rightarrow> string \<Rightarrow> bytes \<Rightarrow> bytes option \<Rightarrow> unit io" where
  "execute_tx w function_name intent_hash signature =
     bind (submit w function_name intent_hash
             (case signature of None \<Rightarrow> [intent_hash] | Some s \<Rightarrow> [intent_hash, s]))
       (\<lambda>receipt. emit (LogMined function_name (gasUsed receipt)))"

text \<open>utils.py: the salt check, and the \<open>sign_intent\<close> and \<open>execute_tx\<close> that call it
  first. Its \<open>execute_tx\<close> tests \<open>if signature:\<close>, which an empty signature fails.\<close>

definition OFFICIAL_SALT :: string where
  "OFFICIAL_SALT = ''0xC0RYM1LL3R_GHOST_AGENT_2025_1234567890abcdef''"

definition check_contract_salt :: "world \<Rightarrow> bool io" where
  "check_contract_salt w =
     bind (emit SaltCall) (\<lambda>_.
     bind (lift (CONTRACT_SALT w)) (\<lambda>contract_salt.
     if contract_salt \<noteq> OFFICIAL_SALT
     then lift (Inl (Exception ''Unauthorized contract: salt mismatch''))
     else ret True))"

definition utils_sign_intent :: "world \<Rightarrow> bytes \<Rightarrow> bytes io" where
  "utils_sign_intent w intent_hash =
     bind (check_contract_salt w) (\<lambda>_.
     bind (emit (SignHash intent_hash)) (\<lambda>_. lift (sign_hash w intent_hash)))"

definition utils_execute_tx :: "world \<Rightarrow> string \<Rightarrow> bytes \<Rightarrow> bytes option \<Rightarrow> unit io" where
  "utils_execute_tx w function_name intent_hash signature =
     bind (check_contract_salt w) (\<lambda>_.
     bind (submit w function_name intent_hash
             (case signature of
                None \<Rightarrow> [intent_hash]
              | Some s \<Rightarrow> if s = [] then [intent_hash] else [intent_hash, s]))
       (\<lambda>_. ret ()))"

section \<open>Event handling and the monitor (ghost\_oracle.py)\<close>

text \<open>
  The state of the process: the global set \<open>processed\<close>, and the trace of the actions
  performed so far. A step takes the state and returns the state it leaves, also when it
  raises.
\<close>

record state =
  processed :: "bytes set"
  trace :: "action list"

type_synonym 'a step = "state \<Rightarrow> (exn + 'a) \<times> state"

definition perform :: "'a io \<Rightarrow> 'a step" where
  "perform m st = (fst m, st\<lparr>trace := trace st @ snd m\<rparr>)"

definition processed_add :: "bytes \<Rightarrow> unit step" where
  "processed_add h st =
     (Inr (), st\<lparr>processed := insert h (processed st), trace := trace st @ [ProcessedAdd h]\<rparr>)"

definition next_step :: "'a step \<Rightarrow> ('a \<Rightarrow> 'b step) \<Rightarrow> 'b step" where
  "next_step m f st = (case m st of (Inl e, st') \<Rightarrow> (Inl e, st') | (Inr x, st') \<Rightarrow> f x st')"

definition init_state :: state where
  "init_state = \<lparr>processed = {}, trace = []\<rparr>"

text \<open>The \<open>try\<close> block of \<open>handle_intent\<close>: the two submissions, the second only
  after the first has returned; any exception is logged.\<close>

definition verify_then_seize :: "world \<Rightarrow> bytes \<Rightarrow> bytes \<Rightarrow> unit io" where
  "verify_then_seize w intent_hash sig =
     try_except
       (bind (execute_tx w ''verifyIntent'' intent_hash (Some sig)) (\<lambda>_.
        execute_tx w ''seizeAssets'' intent_hash None))
       (\<lambda>exc. emit (LogExecError exc))"

definition handle_intent :: "cra_config \<Rightarrow> world \<Rightarrow> event \<Rightarrow> unit step" where
  "handle_intent cfg w ev st =
     (let intent_hash = intentHash ev in
      if intent_hash \<in> processed st then (Inr (), st)
      else
        next_step (perform (emit (LogNewIntent intent_hash))) (\<lambda>_.
        next_step (perform (perform_cra_audit cfg w intent_hash)) (\<lambda>ok.
        if \<not> ok then
          next_step (perform (emit LogAuditFailed)) (\<lambda>_. processed_add intent_hash)
        else
          next_step (perform (sign_intent w intent_hash)) (\<lambda>sig.
          next_step (perform (verify_then_seize w intent_hash sig)) (\<lambda>_.
          processed_add intent_hash)))) st)"

text \<open>The loop \<open>for ev in flt.get_new_entries(): handle_intent(ev)\<close>; an exception
  leaves it.\<close>

fun for_each :: "('a \<Rightarrow> unit step) \<Rightarrow> 'a list \<Rightarrow> unit step" where
  "for_each f [] st = (Inr (), st)"
| "for_each f (x # xs) st =
     (case f x st of
        (Inl e, st') \<Rightarrow> (Inl e, st')
      | (Inr _, st') \<Rightarrow> for_each f xs st')"

text \<open>One run of \<open>monitor_job\<close>: a new filter from the latest block, its new entries
  handled one after the other; any exception is logged and ends the run.\<close>

definition monitor_job :: "cra_config \<Rightarrow> world \<Rightarrow> state \<Rightarrow> state" where
  "monitor_job cfg w st =
     (case next_step (perform (node_call ''monitor'' ''create_filter'' (create_filter w))) (\<lambda>flt.
           next_step (perform (node_call ''monitor'' ''get_new_entries'' (get_new_entries w flt)))
             (\<lambda>entries. for_each (handle_intent cfg w) entries)) st of
        (Inl exc, st') \<Rightarrow> snd (perform (emit (LogMonitorError exc)) st')
      | (Inr _, st') \<Rightarrow> st')"

text \<open>The scheduler runs \<open>monitor_job\<close> every five seconds, one run at a time; the
  list holds the world of each run.\<close>

fun scheduler :: "cra_config \<Rightarrow> world list \<Rightarrow> state \<Rightarrow> state" where
  "scheduler cfg [] st = st"
| "scheduler cfg (w # ws) st = scheduler cfg ws (monitor_job cfg w st)"

section \<open>Reading a trace\<close>

text \<open>The names of the checks that were called, and the log lines of the loop over the
  checks, in the order of the trace.\<close>

definition entered :: "action list \<Rightarrow> string list" where
  "entered t = concat (map (\<lambda>a. case a of Enter n \<Rightarrow> [n] | _ \<Rightarrow> []) t)"

definition reported :: "action list \<Rightarrow> (string \<times> bool) list" where
  "reported t = concat (map (\<lambda>a. case a of LogCheck n ok \<Rightarrow> [(n, ok)] | _ \<Rightarrow> []) t)"

text \<open>The intents announced as new, in the order of the trace; the actions of the
  audit; the actions of \<open>execute_tx(f, ...)\<close>.\<close>

definition announced :: "action list \<Rightarrow> bytes list" where
  "announced t = concat (map (\<lambda>a. case a of LogNewIntent h \<Rightarrow> [h] | _ \<Rightarrow> []) t)"

definition audit_act :: "action \<Rightarrow> bool" where
  "audit_act a =
     (case a of
        HttpGet _ \<Rightarrow> True
      | HttpPost _ _ _ \<Rightarrow> True
      | ClockRead \<Rightarrow> True
      | Enter _ \<Rightarrow> True
      | LogCheck _ _ \<Rightarrow> True
      | LogAuditError _ _ \<Rightarrow> True
      | LogRiskError _ \<Rightarrow> True
      | _ \<Rightarrow> False)"

definition tx_act :: "string \<Rightarrow> action \<Rightarrow> bool" where
  "tx_act f a =
     (case a of
        NodeCall ctx _ \<Rightarrow> ctx = f
      | SendRawTransaction t \<Rightarrow> tx_function t = f
      | LogSent ctx _ \<Rightarrow> ctx = f
      | LogMined ctx _ \<Rightarrow> ctx = f
      | _ \<Rightarrow> False)"

text \<open>The actions a run of \<open>handle_intent\<close> performs between the announcement of the
  intent and the addition to \<open>processed\<close>: everything but an announcement, an addition,
  a call of the contract's salt, or the monitor's error line.\<close>

definition handler_act :: "action \<Rightarrow> bool" where
  "handler_act a =
     (case a of
        LogNewIntent _ \<Rightarrow> False
      | ProcessedAdd _ \<Rightarrow> False
      | SaltCall \<Rightarrow> False
      | LogMonitorError _ \<Rightarrow> False
      | _ \<Rightarrow> True)"

text \<open>The identifiers added to \<open>processed\<close>, in the order of the trace. The invariant
  of the set: no identifier was added twice, and the identifiers added are those of the
  set.\<close>

definition additions :: "action list \<Rightarrow> bytes list" where
  "additions t = concat (map (\<lambda>a. case a of ProcessedAdd h \<Rightarrow> [h] | _ \<Rightarrow> []) t)"


section \<open>Concrete worlds\<close>

text \<open>
  The worlds and payloads at which the theorems below are instantiated. \<open>eth_to_hex\<close> is
  \<open>to_hex\<close> on the values JSON can hold, as eth-utils defines it: a boolean and an
  integer have a hexadecimal form, a string is refused.
\<close>

fun hex_digits :: "nat \<Rightarrow> string" where
  "hex_digits n =
     (if n < 16 then [''0123456789abcdef'' ! n]
      else hex_digits (n div 16) @ [''0123456789abcdef'' ! (n mod 16)])"

definition eth_to_hex :: "json \<Rightarrow> exn + string" where
  "eth_to_hex v =
     (case v of
        JBool b \<Rightarrow> Inr (if b then ''0x1'' else ''0x0'')
      | JInt i \<Rightarrow> Inr ((if i < 0 then ''-0x'' else ''0x'') @ hex_digits (nat \<bar>i\<bar>))
      | _ \<Rightarrow> Inl TypeError)"

text \<open>A node that answers nothing, and a world where every service is out of reach.\<close>

definition no_rpc :: rpc where
  "no_rpc =
     \<lparr>get_function = Inl AttributeError,
      get_transaction_count = Inl Web3Exception,
      call_function = Inl Web3Exception,
      gas_price = Inl Web3Exception,
      build_transaction = Inl Web3Exception,
      estimate_gas = Inl Web3Exception,
      sign_transaction = (\<lambda>_. Inl Web3Exception),
      send_raw_transaction = (\<lambda>_. Inl Web3Exception),
      wait_for_transaction_receipt = (\<lambda>_. Inl Web3Exception)\<rparr>"

definition offline :: world where
  "offline =
     \<lparr>requests_get = (\<lambda>_. ConnectionFailed),
      time_time = 0,
      datetime_now = 0,
      fromisoformat = (\<lambda>_. None),
      to_hex = eth_to_hex,
      requests_post = (\<lambda>_ _ _. ConnectionFailed),
      CONTRACT_SALT = Inl Web3Exception,
      sign_hash = (\<lambda>_. Inl ValueError),
      node = (\<lambda>_ _. no_rpc),
      create_filter = Inl Web3Exception,
      get_new_entries = (\<lambda>_. Inl Web3Exception)\<rparr>"

text \<open>A node that mines every transaction: nonce 7, gas price 1, an estimate of
  \<open>100000\<close>, receipts of status 1.\<close>

definition good_rpc :: rpc where
  "good_rpc =
     \<lparr>get_function = Inr (),
      get_transaction_count = Inr 7,
      call_function = Inr (),
      gas_price = Inr 1,
      build_transaction = Inr (),
      estimate_gas = Inr 100000,
      sign_transaction = (\<lambda>_. Inr [1]),
      send_raw_transaction = (\<lambda>_. Inr [2]),
      wait_for_transaction_receipt = (\<lambda>_. Inr \<lparr>status = 1, gasUsed = 90000\<rparr>)\<rparr>"

text \<open>
  Scenario A of the specification: a payload ten seconds old, an amount below the
  maximum, country \<open>ca\<close>. \<open>world_A\<close> serves it for every intent, with a risk service
  that answers a score of 69 and a node that mines every transaction; the contract's
  salt is not the official one.
\<close>

definition payload_A :: json where
  "payload_A =
     JObj [(''timestamp'', JInt 1700000000), (''amountWei'', JStr ''500''),
           (''originCountry'', JStr ''ca''), (''intentHash'', JInt 42)]"

definition world_A :: world where
  "world_A =
     offline\<lparr>requests_get := (\<lambda>_. Response 200 (Some payload_A)),
             time_time := 1700000010,
             requests_post := (\<lambda>_ _ _. Response 200 (Some (JObj [(''riskScore'', JInt 69)]))),
             CONTRACT_SALT := Inr ''0xSOMEONE_ELSE'',
             sign_hash := (\<lambda>_. Inr [9]),
             node := (\<lambda>_ _. good_rpc)\<rparr>"

text \<open>A payload whose amount is not a number, one without the intent hash, and one
  that is a hundred days old.\<close>

definition payload_bad_amount :: json where
  "payload_bad_amount =
     JObj [(''timestamp'', JInt 1700000000), (''amountWei'', JStr ''abc''),
           (''originCountry'', JStr ''US'')]"

definition payload_no_hash :: json where
  "payload_no_hash =
     JObj [(''timestamp'', JInt 1700000000), (''amountWei'', JInt 5),
           (''originCountry'', JStr ''US'')]"

definition payload_old :: json where
  "payload_old =
     JObj [(''timestamp'', JInt 1691360000), (''amountWei'', JInt 5),
           (''originCountry'', JStr ''US''), (''intentHash'', JInt 42)]"

definition serving :: "json \<Rightarrow> world" where
  "serving p = world_A\<lparr>requests_get := (\<lambda>_. Response 200 (Some p))\<rparr>"

text \<open>\<open>world_A\<close> with another answer of the risk service, and with another clock.\<close>

definition risk_answers :: "http_result \<Rightarrow> world" where
  "risk_answers r = world_A\<lparr>requests_post := (\<lambda>_ _ _. r)\<rparr>"

definition at_time :: "rat \<Rightarrow> world" where
  "at_time t = world_A\<lparr>time_time := t\<rparr>"

text \<open>A payload whose timestamp has half a second.\<close>

definition payload_half_second :: json where
  "payload_half_second =
     JObj [(''timestamp'', JFloat (Finite (3400000001 / 2))), (''amountWei'', JInt 5),
           (''originCountry'', JStr ''US''), (''intentHash'', JInt 42)]"

text \<open>A payload of cra\_audit.py, whose timestamp is an ISO string, and a world whose
  parser reads that string (second \<open>1700000000\<close> of the epoch) and whose clock is the
  argument, in microseconds.\<close>

definition payload_iso :: json where
  "payload_iso =
     JObj [(''timestamp'', JStr ''2023-11-14T22:13:20''), (''amountWei'', JInt 5),
           (''originCountry'', JStr ''US''), (''intentHash'', JInt 42)]"

definition iso_world :: "int \<Rightarrow> world" where
  "iso_world now =
     world_A\<lparr>fromisoformat :=
               (\<lambda>s. if s = ''2023-11-14T22:13:20'' then Some 1700000000000000 else None),
             datetime_now := now\<rparr>"

text \<open>\<open>world_A\<close> with a node whose receipt for \<open>verifyIntent\<close> has status 0.\<close>

definition world_reverted :: world where
  "world_reverted =
     world_A\<lparr>node := (\<lambda>f _.
       if f = ''verifyIntent''
       then good_rpc\<lparr>wait_for_transaction_receipt := (\<lambda>_. Inr \<lparr>status = 0, gasUsed = 21000\<rparr>)\<rparr>
       else good_rpc)\<rparr>"

text \<open>
  The world of a run of the monitor when the latest block is \<open>latest\<close> and the chain
  holds the events \<open>chain\<close>: the new filter starts at \<open>latest\<close> and reports every event
  of the chain from that block on, which is the most a filter from that block can
  report.
\<close>

definition tick_at :: "nat \<Rightarrow> event list \<Rightarrow> world" where
  "tick_at latest chain =
     world_A\<lparr>create_filter := Inr latest,
             get_new_entries := (\<lambda>n. Inr (filter (\<lambda>e. n \<le> blockNumber e) chain))\<rparr>"

text \<open>The event that declares intent \<open>[1]\<close> in block 6.\<close>

definition intent_1 :: event where
  "intent_1 = \<lparr>blockNumber = 6, intentHash = [1]\<rparr>"

section \<open>Laws of the computations\<close>

lemma bind_Inl [simp]: "bind (Inl e, t) f = (Inl e, t)"
  by (simp add: bind_def)

lemma bind_Inr [simp]: "bind (Inr x, t) f = (fst (f x), t @ snd (f x))"
  by (simp add: bind_def split: prod.splits)

lemma bind_ret [simp]: "bind (ret x) f = f x"
  by (simp add: ret_def)

lemma bind_emit [simp]: "bind (emit a) f = (fst (f ()), a # snd (f ()))"
  by (simp add: emit_def)

lemma bind_lift_Inl [simp]: "bind (lift (Inl e)) f = (Inl e, [])"
  by (simp add: lift_def)

lemma bind_lift_Inr [simp]: "bind (lift (Inr x)) f = f x"
  by (simp add: lift_def)

lemma fst_ret [simp]: "fst (ret x) = Inr x"
  by (simp add: ret_def)

lemma snd_ret [simp]: "snd (ret x) = []"
  by (simp add: ret_def)

lemma fst_lift [simp]: "fst (lift r) = r"
  by (simp add: lift_def)

lemma snd_lift [simp]: "snd (lift r) = []"
  by (simp add: lift_def)

lemma fst_emit [simp]: "fst (emit a) = Inr ()"
  by (simp add: emit_def)

lemma snd_emit [simp]: "snd (emit a) = [a]"
  by (simp add: emit_def)

lemma fst_bind: "fst (bind m f) = (case fst m of Inl e \<Rightarrow> Inl e | Inr x \<Rightarrow> fst (f x))"
  by (cases m) (auto simp: bind_def split: sum.splits prod.splits)

lemma snd_bind:
  "snd (bind m f) = (case fst m of Inl e \<Rightarrow> snd m | Inr x \<Rightarrow> snd m @ snd (f x))"
  by (cases m) (auto simp: bind_def split: sum.splits prod.splits)

lemma fst_try_except:
  "fst (try_except m h) = (case fst m of Inl e \<Rightarrow> fst (h e) | Inr x \<Rightarrow> Inr x)"
  by (cases m) (auto simp: try_except_def split: sum.splits prod.splits)

lemma snd_try_except:
  "snd (try_except m h) = (case fst m of Inl e \<Rightarrow> snd m @ snd (h e) | Inr x \<Rightarrow> snd m)"
  by (cases m) (auto simp: try_except_def split: sum.splits prod.splits)

lemmas io_defs = ret_def lift_def emit_def bind_def try_except_def

lemmas py_defs = dict_get_def dict_getitem_def py_int_def py_int_of_float_def py_upper_def
  py_lt_int_def float_sub_int_def int_of_str_def unsigned_of_str_def strip_def is_space_def
  digit_val_def upper_char_def trunc_def falsy_def

lemmas audit_defs = perform_cra_audit_def cra_audit_perform_cra_audit_def run_audit_def
  fetch_intent_payload_def http_get_def http_post_def raise_for_status_def response_json_def
  check_timestamp_def cra_audit_check_timestamp_def check_amount_def check_geography_def
  check_external_risk_def

lemmas world_defs = CRA_CONFIG_def cra_audit_CRA_CONFIG_def offline_def no_rpc_def good_rpc_def
  world_A_def payload_A_def payload_bad_amount_def payload_no_hash_def payload_old_def
  serving_def eth_to_hex_def risk_answers_def at_time_def payload_half_second_def
  payload_iso_def iso_world_def world_reverted_def tick_at_def intent_1_def

section \<open>The audit\<close>

lemma fst_report: "fst (report cs) = Inr (\<forall>c \<in> set cs. snd c)"
  by (induction cs rule: report.induct) (auto simp: ret_def split: prod.splits)

lemma fst_run_audit:
  "fst (run_audit check_ts cfg w h) =
     (case fst (fetch_intent_payload w h) of
        Inl e \<Rightarrow> Inr False
      | Inr p \<Rightarrow>
          (case fst (check_ts p) of Inl e \<Rightarrow> Inr False | Inr c1 \<Rightarrow>
          (case fst (check_amount cfg p) of Inl e \<Rightarrow> Inr False | Inr c2 \<Rightarrow>
          (case fst (check_geography cfg p) of Inl e \<Rightarrow> Inr False | Inr c3 \<Rightarrow>
          (case fst (check_external_risk cfg w p) of Inl e \<Rightarrow> Inr False | Inr c4 \<Rightarrow>
             Inr (c1 \<and> c2 \<and> c3 \<and> c4))))))"
  unfolding run_audit_def
  by (simp add: fst_try_except fst_bind fst_report del: report.simps split: sum.splits)

lemma check_external_risk_returns: "\<exists>b. fst (check_external_risk cfg w p) = Inr b"
proof (cases "falsy (risk_api_key cfg)")
  case True
  then show ?thesis by (auto simp: check_external_risk_def)
next
  case False
  then show ?thesis
    unfolding check_external_risk_def
    by (auto simp: fst_try_except split: sum.splits)
qed

lemma run_audit_fetch_failed:
  assumes "fst (fetch_intent_payload w h) = Inl e"
  shows "fst (run_audit check_ts cfg w h) = Inr False"
    and "entered (snd (run_audit check_ts cfg w h)) = []"
proof -
  show "fst (run_audit check_ts cfg w h) = Inr False"
    using assms by (simp add: fst_run_audit)
  have "snd (fetch_intent_payload w h) = [HttpGet h]"
    by (simp add: fetch_intent_payload_def http_get_def raise_for_status_def response_json_def
        split: http_result.splits option.splits)
  then show "entered (snd (run_audit check_ts cfg w h)) = []"
    using assms by (simp add: run_audit_def snd_try_except fst_bind snd_bind entered_def)
qed


lemma run_audit_returns: "\<exists>b. fst (run_audit check_ts cfg w h) = Inr b"
  by (auto simp: fst_run_audit split: sum.splits)

lemma run_audit_check_raises:
  assumes "fst (fetch_intent_payload w h) = Inr p"
    and "fst (check_ts p) = Inl e \<or> fst (check_amount cfg p) = Inl e \<or>
         fst (check_geography cfg p) = Inl e"
  shows "fst (run_audit check_ts cfg w h) = Inr False"
  using assms by (auto simp: fst_run_audit split: sum.splits)

lemma risk_request_raises:
  assumes "\<not> falsy (risk_api_key cfg)"
    and "dict_getitem p ''intentHash'' = Inl e"
  shows "fst (check_external_risk cfg w p) = Inr False"
  using assms unfolding check_external_risk_def
  by (simp add: fst_try_except)

lemma entered_Nil [simp]: "entered [] = []"
  by (simp add: entered_def)

lemma entered_Cons [simp]:
  "entered (a # t) = (case a of Enter n \<Rightarrow> [n] | _ \<Rightarrow> []) @ entered t"
  by (simp add: entered_def)

lemma entered_append [simp]: "entered (t @ u) = entered t @ entered u"
  by (simp add: entered_def)

lemma reported_Nil [simp]: "reported [] = []"
  by (simp add: reported_def)

lemma reported_Cons [simp]:
  "reported (a # t) = (case a of LogCheck n ok \<Rightarrow> [(n, ok)] | _ \<Rightarrow> []) @ reported t"
  by (simp add: reported_def)

lemma reported_append [simp]: "reported (t @ u) = reported t @ reported u"
  by (simp add: reported_def)

lemma snd_fetch: "snd (fetch_intent_payload w h) = [HttpGet h]"
  by (simp add: fetch_intent_payload_def http_get_def raise_for_status_def response_json_def
      split: http_result.splits option.splits)

lemma trace_check_timestamp:
  "\<exists>t. snd (check_timestamp cfg w p) = Enter ''timestamp'' # t \<and> entered t = [] \<and> reported t = []"
  by (auto simp: check_timestamp_def snd_bind split: sum.splits)

lemma trace_cra_audit_check_timestamp:
  "\<exists>t. snd (cra_audit_check_timestamp cfg w p) = Enter ''timestamp'' # t \<and>
       entered t = [] \<and> reported t = []"
  by (auto simp: cra_audit_check_timestamp_def snd_bind split: sum.splits)

lemma trace_check_amount: "snd (check_amount cfg p) = [Enter ''amount'']"
  by (auto simp: check_amount_def snd_bind split: sum.splits)

lemma trace_check_geography: "snd (check_geography cfg p) = [Enter ''geography'']"
  by (auto simp: check_geography_def snd_bind split: sum.splits)

lemma snd_http_post: "snd (http_post w url key body) = [HttpPost url key body]"
  by (simp add: http_post_def split: http_result.splits)

lemma trace_check_external_risk:
  "\<exists>t. snd (check_external_risk cfg w p) = Enter ''externalRisk'' # t \<and>
       entered t = [] \<and> reported t = []"
  by (auto simp: check_external_risk_def snd_bind snd_try_except fst_bind snd_http_post
      raise_for_status_def response_json_def
      split: sum.splits http_result.splits option.splits)

lemma entered_report [simp]: "entered (snd (report cs)) = []"
  by (induction cs rule: report.induct) (auto split: prod.splits)

lemma reported_report:
  "reported (snd (report cs)) = takeWhile snd cs @ take 1 (dropWhile snd cs)"
  by (induction cs rule: report.induct) (auto split: prod.splits)

lemma snd_run_audit:
  assumes "fst (fetch_intent_payload w h) = Inr p"
    and "fst (check_ts p) = Inr c1"
    and "fst (check_amount cfg p) = Inr c2"
    and "fst (check_geography cfg p) = Inr c3"
    and "fst (check_external_risk cfg w p) = Inr c4"
  shows "snd (run_audit check_ts cfg w h) =
     HttpGet h # snd (check_ts p) @ Enter ''amount'' # Enter ''geography'' #
     snd (check_external_risk cfg w p) @
     snd (report [(''timestamp'', c1), (''amount'', c2), (''geography'', c3),
                  (''externalRisk'', c4)])"
  using assms unfolding run_audit_def
  by (simp add: snd_try_except fst_bind snd_bind fst_report snd_fetch trace_check_amount
      trace_check_geography del: report.simps)

lemma run_audit_all_checks:
  assumes "fst (fetch_intent_payload w h) = Inr p"
    and "fst (check_ts p) = Inr c1"
    and "fst (check_amount cfg p) = Inr c2"
    and "fst (check_geography cfg p) = Inr c3"
    and ts: "\<exists>t. snd (check_ts p) = Enter ''timestamp'' # t \<and> entered t = [] \<and> reported t = []"
  shows "entered (snd (run_audit check_ts cfg w h)) =
           [''timestamp'', ''amount'', ''geography'', ''externalRisk'']"
    and "\<exists>t1 t2. snd (run_audit check_ts cfg w h) = t1 @ snd (check_external_risk cfg w p) @ t2"
    and "reported (snd (run_audit check_ts cfg w h)) =
           (let cs = [(''timestamp'', c1), (''amount'', c2), (''geography'', c3),
                      (''externalRisk'', fst (check_external_risk cfg w p) = Inr True)]
            in takeWhile snd cs @ take 1 (dropWhile snd cs))"
    and "fst (run_audit check_ts cfg w h) =
           Inr (c1 \<and> c2 \<and> c3 \<and> fst (check_external_risk cfg w p) = Inr True)"
proof -
  obtain c4 where c4: "fst (check_external_risk cfg w p) = Inr c4"
    using check_external_risk_returns by blast
  obtain t where t: "snd (check_ts p) = Enter ''timestamp'' # t" "entered t = []" "reported t = []"
    using ts by blast
  obtain u where u: "snd (check_external_risk cfg w p) = Enter ''externalRisk'' # u"
    "entered u = []" "reported u = []"
    using trace_check_external_risk by blast
  have s: "snd (run_audit check_ts cfg w h) =
     HttpGet h # snd (check_ts p) @ Enter ''amount'' # Enter ''geography'' #
     snd (check_external_risk cfg w p) @
     snd (report [(''timestamp'', c1), (''amount'', c2), (''geography'', c3),
                  (''externalRisk'', c4)])"
    using assms(1-4) c4 by (rule snd_run_audit)
  show "entered (snd (run_audit check_ts cfg w h)) =
           [''timestamp'', ''amount'', ''geography'', ''externalRisk'']"
    by (simp add: s t u del: report.simps)
  show "\<exists>t1 t2. snd (run_audit check_ts cfg w h) = t1 @ snd (check_external_risk cfg w p) @ t2"
    unfolding s
    by (rule exI [of _ "HttpGet h # snd (check_ts p) @ [Enter ''amount'', Enter ''geography'']"],
        rule exI [of _ "snd (report [(''timestamp'', c1), (''amount'', c2),
           (''geography'', c3), (''externalRisk'', c4)])"]) simp
  have "c4 = (fst (check_external_risk cfg w p) = Inr True)"
    using c4 by simp
  then show "reported (snd (run_audit check_ts cfg w h)) =
           (let cs = [(''timestamp'', c1), (''amount'', c2), (''geography'', c3),
                      (''externalRisk'', fst (check_external_risk cfg w p) = Inr True)]
            in takeWhile snd cs @ take 1 (dropWhile snd cs))"
    by (simp add: s t u reported_report del: report.simps)
  show "fst (run_audit check_ts cfg w h) =
           Inr (c1 \<and> c2 \<and> c3 \<and> fst (check_external_risk cfg w p) = Inr True)"
    using assms(1-4) c4 by (simp add: fst_run_audit)
qed

lemma check_external_risk_no_key:
  "falsy (risk_api_key cfg) \<Longrightarrow> fst (check_external_risk cfg w p) = Inr True"
  by (simp add: check_external_risk_def)

lemma check_external_risk_no_hex:
  assumes "\<not> falsy (risk_api_key cfg)"
    and "dict_getitem p ''intentHash'' = Inr ih"
    and "to_hex w ih = Inl e"
  shows "fst (check_external_risk cfg w p) = Inr False"
  using assms unfolding check_external_risk_def
  by (simp add: fst_try_except)

lemma fst_http_post:
  "fst (http_post w url key body) =
     (case requests_post w url key body of
        ConnectionFailed \<Rightarrow> Inl RequestException
      | Response code b \<Rightarrow> Inr (Response code b))"
  by (simp add: http_post_def split: http_result.splits)

lemma py_lt_int_zero: "py_lt_int (JInt 0) 70 = Inr True"
  by (simp add: py_lt_int_def)

lemma risk_answer_passes:
  "(fst (bind (raise_for_status r) (\<lambda>_.
         bind (response_json r) (\<lambda>body.
         bind (lift (dict_get body ''riskScore'' (JInt 0))) (\<lambda>score.
         lift (py_lt_int score 70))))) = Inr True) =
   (case r of
      ConnectionFailed \<Rightarrow> False
    | Response code body \<Rightarrow>
        \<not> (400 \<le> code \<and> code < 600) \<and>
        (case body of
           Some (JObj kvs) \<Rightarrow>
             (case map_of kvs ''riskScore'' of
                None \<Rightarrow> True
              | Some score \<Rightarrow> py_lt_int score 70 = Inr True)
         | _ \<Rightarrow> False))"
proof (cases r)
  case ConnectionFailed
  then show ?thesis by (simp add: raise_for_status_def)
next
  case (Response code body)
  show ?thesis
  proof (cases "400 \<le> code \<and> code < 600")
    case True
    with Response show ?thesis by (simp add: raise_for_status_def)
  next
    case False
    note ok = this
    show ?thesis
    proof (cases body)
      case None
      with Response ok show ?thesis by (simp add: raise_for_status_def response_json_def)
    next
      case (Some j)
      show ?thesis
      proof (cases "\<exists>kvs. j = JObj kvs")
        case True
        then obtain kvs where "j = JObj kvs" by blast
        with Response ok Some show ?thesis
          by (auto simp: raise_for_status_def response_json_def dict_get_def py_lt_int_zero
              split: option.splits)
      next
        case False
        then have "dict_get j ''riskScore'' (JInt 0) = Inl AttributeError"
          by (cases j) (simp_all add: dict_get_def)
        moreover from False have "(case j of JObj kvs \<Rightarrow>
             (case map_of kvs ''riskScore'' of None \<Rightarrow> True
              | Some score \<Rightarrow> py_lt_int score 70 = Inr True) | _ \<Rightarrow> False) = False"
          by (cases j) simp_all
        ultimately show ?thesis
          using Response ok Some by (simp add: raise_for_status_def response_json_def)
      qed
    qed
  qed
qed

lemma try_except_False:
  "(\<And>e. fst (h e) = Inr False) \<Longrightarrow> fst (try_except m h) = Inr (fst m = Inr True)"
  by (simp add: fst_try_except split: sum.splits)

lemma check_external_risk_answer:
  assumes "\<not> falsy (risk_api_key cfg)"
    and "dict_getitem p ''intentHash'' = Inr ih"
    and "to_hex w ih = Inr hex"
    and "dict_get p ''metadata'' (JObj []) = Inr md"
  shows "fst (check_external_risk cfg w p) =
     Inr (case requests_post w (risk_api cfg) (the (risk_api_key cfg))
                 (JObj [(''intentHash'', JStr hex), (''metadata'', md)]) of
            ConnectionFailed \<Rightarrow> False
          | Response code body \<Rightarrow>
              \<not> (400 \<le> code \<and> code < 600) \<and>
              (case body of
                 Some (JObj kvs) \<Rightarrow>
                   (case map_of kvs ''riskScore'' of
                      None \<Rightarrow> True
                    | Some score \<Rightarrow> py_lt_int score 70 = Inr True)
               | _ \<Rightarrow> False))"
proof -
  let ?r = "requests_post w (risk_api cfg) (the (risk_api_key cfg))
                 (JObj [(''intentHash'', JStr hex), (''metadata'', md)])"
  let ?k = "\<lambda>r. bind (raise_for_status r) (\<lambda>_.
         bind (response_json r) (\<lambda>body.
         bind (lift (dict_get body ''riskScore'' (JInt 0))) (\<lambda>score.
         lift (py_lt_int score 70))))"
  have "fst (check_external_risk cfg w p) =
          Inr (fst (bind (http_post w (risk_api cfg) (the (risk_api_key cfg))
                 (JObj [(''intentHash'', JStr hex), (''metadata'', md)])) ?k) = Inr True)"
    using assms unfolding check_external_risk_def
    by (simp add: fst_bind try_except_False del: bind_emit)
  also have "fst (bind (http_post w (risk_api cfg) (the (risk_api_key cfg))
                 (JObj [(''intentHash'', JStr hex), (''metadata'', md)])) ?k) = Inr True
        \<longleftrightarrow> fst (?k ?r) = Inr True"
    by (cases ?r) (simp_all add: fst_bind fst_http_post raise_for_status_def)
  finally show ?thesis
    by (simp only: risk_answer_passes)
qed

lemma check_timestamp_result:
  assumes "dict_get p ''timestamp'' (JInt 0) = Inr v"
    and "py_int v = Inr ts"
    and "\<bar>ts\<bar> < 2 ^ 1024 - 2 ^ 970"
  shows "fst (check_timestamp cfg w p) =
           Inr (time_time w - of_int ts \<le> of_int (time_window_seconds cfg))"
  using assms by (simp add: check_timestamp_def float_sub_int_def)

lemma cra_audit_check_timestamp_result:
  assumes "dict_getitem p ''timestamp'' = Inr (JStr s)"
    and "fromisoformat w s = Some t"
  shows "fst (cra_audit_check_timestamp cfg w p) =
           Inr (of_int (datetime_now w - t) / 1000000 \<le> (of_int (time_window_seconds cfg) :: rat))"
  using assms by (simp add: cra_audit_check_timestamp_def)

section \<open>The gas margin\<close>

lemma round_half_even_of_int: "round_half_even (of_int m) = m"
  by (simp add: round_half_even_def)

lemma round_half_even_lower:
  assumes "of_int m - 1 / 2 < x"
  shows "m \<le> round_half_even x"
proof -
  have "m \<le> \<lfloor>x\<rfloor> \<or> (m = \<lfloor>x\<rfloor> + 1 \<and> 1 / 2 < x - of_int \<lfloor>x\<rfloor>)"
  proof (cases "m \<le> \<lfloor>x\<rfloor>")
    case True
    then show ?thesis by simp
  next
    case False
    then have "\<lfloor>x\<rfloor> + 1 \<le> m" by simp
    moreover have "m < \<lfloor>x\<rfloor> + 2"
    proof -
      have "of_int m < x + 1 / 2" using assms by simp
      also have "x < of_int \<lfloor>x\<rfloor> + 1" by linarith
      finally have "(of_int m :: rat) < of_int (\<lfloor>x\<rfloor> + 2)" by simp
      then show ?thesis by (simp only: of_int_less_iff)
    qed
    ultimately have m: "m = \<lfloor>x\<rfloor> + 1" by simp
    then have "of_int \<lfloor>x\<rfloor> + 1 - 1 / 2 < x" using assms by simp
    then have "1 / 2 < x - of_int \<lfloor>x\<rfloor>" by simp
    with m show ?thesis by simp
  qed
  then show ?thesis
    by (auto simp: round_half_even_def Let_def)
qed

lemma round_half_even_upper: "of_int (round_half_even x) \<le> x + 1 / 2"
proof (cases "x - of_int \<lfloor>x\<rfloor> < 1 / 2")
  case True
  have "of_int \<lfloor>x\<rfloor> \<le> x" by simp
  then have "of_int \<lfloor>x\<rfloor> \<le> x + 1 / 2" by linarith
  with True show ?thesis by (simp add: round_half_even_def Let_def)
next
  case False
  then have h: "of_int \<lfloor>x\<rfloor> + 1 \<le> x + 1 / 2" by linarith
  then have "of_int \<lfloor>x\<rfloor> \<le> x + 1 / 2" by linarith
  with False h show ?thesis by (simp add: round_half_even_def Let_def)
qed

lemma delta_1_2: "6 / 5 - double_1_2 = 1 / (5 * 2 ^ 52)"
  by (simp add: double_1_2_def)


lemma gas_core:
  fixes e Mi :: int and M K :: rat
  assumes e: "1 \<le> e" and KM: "K * M = 2 ^ 53" and M: "4 \<le> M" and Mi: "M = of_int Mi"
    and pK: "of_int e * double_1_2 < K"
  shows "\<lfloor>of_int (round_half_even (of_int e * double_1_2 * M)) / M\<rfloor> = (6 * e) div 5"
proof -
  define n where "n = (6 * e) div 5"
  define E :: rat where "E = of_int e"
  define N :: rat where "N = of_int n"
  define p where "p = E * double_1_2"
  define R where "R = round_half_even (p * M)"
  have Mpos: "0 < M" using M by linarith
  have E1: "1 \<le> E" using e by (simp add: E_def)
  have "5 * n \<le> 6 * e" "6 * e \<le> 5 * n + 4"
    unfolding n_def by presburger+
  then have "(of_int (5 * n) :: rat) \<le> of_int (6 * e)" "(of_int (6 * e) :: rat) \<le> of_int (5 * n + 4)"
    by (simp_all only: of_int_le_iff)
  then have a: "5 * N \<le> 6 * E" and b: "6 * E \<le> 5 * N + 4"
    by (simp_all add: N_def E_def)
  have c: "p = 6 * E / 5 - E / (5 * 2 ^ 52)"
    unfolding p_def using delta_1_2 by (simp add: algebra_simps)
  have "E \<le> p"
    unfolding p_def using E1 by (simp add: double_1_2_def)
  then have "E < K" using pK by (simp add: p_def E_def)
  then have "E * M < K * M" using Mpos by (rule mult_strict_right_mono)
  then have EM: "E * M < 2 ^ 53" by (simp add: KM)
  have EM0: "0 < E * M" using E1 Mpos by simp
  have low: "of_int (n * Mi) - 1 / 2 < p * M"
  proof -
    have "(N - 6 * E / 5) * M \<le> 0"
      using a Mpos by (intro mult_nonpos_nonneg) simp_all
    moreover have "(N - p) * M = (N - 6 * E / 5) * M + E * M / (5 * 2 ^ 52)"
      by (simp add: c algebra_simps)
    moreover have "E * M / (5 * 2 ^ 52) < 1 / 2"
      using EM by simp
    ultimately have "(N - p) * M < 1 / 2" by linarith
    then have "N * M - 1 / 2 < p * M" by (simp add: algebra_simps)
    then show ?thesis by (simp add: N_def Mi)
  qed
  have up: "p * M + 1 / 2 < (N + 1) * M"
  proof -
    have "0 \<le> (N + 4 / 5 - 6 * E / 5) * M"
      using b Mpos by (intro mult_nonneg_nonneg) simp_all
    moreover have "(N + 1 - p) * M = (N + 4 / 5 - 6 * E / 5) * M + M / 5 + E * M / (5 * 2 ^ 52)"
      by (simp add: c algebra_simps)
    moreover have "0 < E * M / (5 * 2 ^ 52)"
      using EM0 by simp
    moreover have "4 / 5 \<le> M / 5" using M by simp
    ultimately have "4 / 5 < (N + 1 - p) * M" by linarith
    then show ?thesis by (simp add: algebra_simps)
  qed
  have "n * Mi \<le> R"
    unfolding R_def using low by (rule round_half_even_lower)
  then have "(of_int (n * Mi) :: rat) \<le> of_int R" by (simp only: of_int_le_iff)
  then have l: "N * M \<le> of_int R" by (simp add: N_def Mi)
  have "of_int R \<le> p * M + 1 / 2"
    unfolding R_def by (rule round_half_even_upper)
  then have u: "of_int R < (N + 1) * M" using up by linarith
  have "N \<le> of_int R / M" using l Mpos by (simp add: pos_le_divide_eq)
  moreover have "of_int R / M < N + 1" using u Mpos by (simp add: pos_divide_less_eq)
  ultimately have "\<lfloor>of_int R / M\<rfloor> = n"
    unfolding N_def by (intro floor_unique) simp_all
  then show ?thesis
    by (simp add: R_def p_def E_def n_def)
qed


lemma round_to_double_normal:
  fixes q :: rat
  assumes q1: "1 \<le> q" and k: "k = bitlen \<lfloor>q\<rfloor>" and k53: "k \<le> 53"
    and M: "M = 2 ^ nat (53 - k)"
    and small: "\<bar>of_int (round_half_even (q * M)) / M\<bar> < 2 ^ 1024"
  shows "round_to_double q = Finite (of_int (round_half_even (q * M)) / M)"
proof -
  have "1 \<le> \<lfloor>q\<rfloor>" using q1 by simp
  then have "1 \<le> k" unfolding k by (simp add: bitlen_ge_iff_power)
  then have m: "max (ilog2 \<bar>q\<bar>) (- 1022) - 52 = k - 53"
    using q1 by (simp add: ilog2_def k)
  have "pow2 (k - 53) = 1 / M"
  proof (cases "k = 53")
    case True
    then show ?thesis by (simp add: pow2_def M)
  next
    case False
    then have "k < 53" using k53 by simp
    then show ?thesis by (simp add: pow2_def M)
  qed
  then have "pow2 (max (ilog2 \<bar>q\<bar>) (- 1022) - 52) = 1 / M" by (simp only: m)
  moreover have "q \<noteq> 0" using q1 by auto
  ultimately show ?thesis
    using small by (simp add: round_to_double_def Let_def)
qed

lemma float_of_int_exact:
  assumes "0 \<le> e" and "e < 2 ^ 53"
  shows "float_of_int e = Inr (of_int e)"
proof (cases "e = 0")
  case True
  then show ?thesis by (simp add: float_of_int_def round_to_double_def)
next
  case False
  then have e1: "1 \<le> e" using assms by simp
  define k where "k = bitlen e"
  define M :: rat where "M = 2 ^ nat (53 - k)"
  have k53: "k \<le> 53" unfolding k_def using assms by (simp add: bitlen_le_iff_power)
  have Mpos: "0 < M" by (simp add: M_def)
  have "M = of_int (2 ^ nat (53 - k))" by (simp add: M_def)
  then have "of_int e * M = of_int (e * 2 ^ nat (53 - k))" by simp
  then have R: "round_half_even (of_int e * M) = e * 2 ^ nat (53 - k)"
    by (simp only: round_half_even_of_int)
  have "of_int (round_half_even (of_int e * M)) / M = (of_int (e * 2 ^ nat (53 - k)) :: rat) / M"
    by (simp only: R)
  also have "\<dots> = of_int e"
    by (simp add: M_def)
  finally have r: "of_int (round_half_even (of_int e * M)) / M = of_int e" .
  have "(of_int e :: rat) < 2 ^ 53" using assms(2) by (simp only: of_int_less_numeral_power_cancel_iff)
  also have "\<dots> < (2 :: rat) ^ 1024" by simp
  finally have small: "\<bar>of_int (round_half_even (of_int e * M)) / M\<bar> < 2 ^ 1024"
    using e1 by (simp add: r)
  have "round_to_double (of_int e) = Finite (of_int (round_half_even (of_int e * M)) / M)"
    using _ _ k53 M_def small
  proof (rule round_to_double_normal)
    show "1 \<le> (of_int e :: rat)" using e1 by simp
    show "k = bitlen \<lfloor>of_int e :: rat\<rfloor>" by (simp add: k_def)
  qed
  then show ?thesis by (simp add: float_of_int_def r)
qed


lemma gas_with_margin_floor:
  assumes "estimated < 2 ^ 50"
  shows "gas_with_margin estimated = Inr ((6 * estimated) div 5)"
proof (cases "estimated = 0")
  case True
  then show ?thesis
    by (simp add: gas_with_margin_def float_of_int_def round_to_double_def
        py_int_of_float_def trunc_def)
next
  case False
  define e where "e = int estimated"
  have e1: "1 \<le> e" using False by (simp add: e_def)
  have e50: "e < 2 ^ 50" using assms by (simp add: e_def)
  define q :: rat where "q = of_int e * double_1_2"
  define k where "k = bitlen \<lfloor>q\<rfloor>"
  define M :: rat where "M = 2 ^ nat (53 - k)"
  define K :: rat where "K = 2 ^ nat k"
  define r where "r = of_int (round_half_even (q * M)) / M"
  have E1: "(1 :: rat) \<le> of_int e" using e1 by simp
  have E50: "(of_int e :: rat) < 2 ^ 50"
    using e50 by (simp only: of_int_less_numeral_power_cancel_iff)
  have q1: "1 \<le> q"
  proof -
    have "(1 :: rat) \<le> double_1_2" by (simp add: double_1_2_def)
    then have "1 * 1 \<le> of_int e * double_1_2" using E1 by (intro mult_mono) simp_all
    then show ?thesis by (simp add: q_def)
  qed
  have q51: "q < 2 ^ 51"
  proof -
    have "double_1_2 < 2" by (simp add: double_1_2_def)
    moreover have "(0 :: rat) < of_int e" using E1 by linarith
    ultimately have "of_int e * double_1_2 < of_int e * 2" by (simp only: mult_strict_left_mono)
    also have "\<dots> < 2 ^ 50 * 2" using E50 by simp
    finally show ?thesis by (simp add: q_def)
  qed
  have fq: "1 \<le> \<lfloor>q\<rfloor>" using q1 by simp
  have "\<lfloor>q\<rfloor> < 2 ^ 51"
  proof -
    have "of_int \<lfloor>q\<rfloor> \<le> q" by simp
    then have "(of_int \<lfloor>q\<rfloor> :: rat) < 2 ^ 51" using q51 by linarith
    then show ?thesis by (simp only: of_int_less_numeral_power_cancel_iff)
  qed
  then have k51: "k \<le> 51" unfolding k_def by (simp add: bitlen_le_iff_power)
  have k1: "1 \<le> k" unfolding k_def using fq by (simp add: bitlen_ge_iff_power)
  have "\<lfloor>q\<rfloor> < 2 ^ nat k"
    unfolding k_def using bitlen_bounds [of "\<lfloor>q\<rfloor>"] fq by simp
  then have "\<lfloor>q\<rfloor> + 1 \<le> 2 ^ nat k" by simp
  then have "(of_int (\<lfloor>q\<rfloor> + 1) :: rat) \<le> of_int (2 ^ nat k)" by (simp only: of_int_le_iff)
  then have "of_int \<lfloor>q\<rfloor> + 1 \<le> K" by (simp add: K_def)
  moreover have "q < of_int \<lfloor>q\<rfloor> + 1" by linarith
  ultimately have qK: "q < K" by linarith
  have "nat k + nat (53 - k) = 53" using k1 k51 by simp
  then have "K * M = 2 ^ 53"
    unfolding K_def M_def by (simp flip: power_add)
  moreover have M4: "4 \<le> M"
  proof -
    have "2 \<le> nat (53 - k)" using k51 by simp
    then have "(2 :: rat) ^ 2 \<le> 2 ^ nat (53 - k)" by (intro power_increasing) simp_all
    then show ?thesis by (simp add: M_def)
  qed
  moreover have "M = of_int (2 ^ nat (53 - k))" by (simp add: M_def)
  ultimately have fl: "\<lfloor>r\<rfloor> = (6 * e) div 5"
    unfolding r_def q_def using e1 qK [unfolded q_def]
    by (intro gas_core [where K = K]) simp_all
  have Mpos: "0 < M" using M4 by linarith
  have n0: "0 \<le> (6 * e) div 5" using e1 by simp
  have r0: "0 \<le> r"
  proof -
    have "of_int \<lfloor>r\<rfloor> \<le> r" by simp
    moreover have "(0 :: rat) \<le> of_int \<lfloor>r\<rfloor>" using n0 fl by simp
    ultimately show ?thesis by linarith
  qed
  have "r < of_int \<lfloor>r\<rfloor> + 1" by linarith
  moreover have "(6 * e) div 5 + 1 \<le> 2 ^ 53" using e50 by simp
  then have "(of_int ((6 * e) div 5 + 1) :: rat) \<le> of_int (2 ^ 53)" by (simp only: of_int_le_iff)
  then have "(of_int ((6 * e) div 5) :: rat) + 1 \<le> 2 ^ 53" by simp
  ultimately have "r < 2 ^ 53" using fl by simp
  also have "\<dots> < (2 :: rat) ^ 1024" by simp
  finally have small: "\<bar>r\<bar> < 2 ^ 1024" using r0 by simp
  have "round_to_double q = Finite r"
    unfolding r_def using q1 k_def _ M_def small [unfolded r_def]
    by (rule round_to_double_normal) (use k51 in simp)
  moreover have "float_of_int e = Inr (of_int e)"
    using e1 e50 by (intro float_of_int_exact) simp_all
  moreover have "trunc r = \<lfloor>r\<rfloor>" using r0 by (simp add: trunc_def)
  moreover have "nat ((6 * e) div 5) = (6 * estimated) div 5"
    unfolding e_def by (simp add: nat_div_distrib nat_mult_distrib)
  ultimately show ?thesis
    by (simp add: gas_with_margin_def py_int_of_float_def fl flip: e_def q_def)
qed

lemma snd_node_call: "snd (node_call c n r) = [NodeCall c n]"
  by (simp add: node_call_def)

lemma fst_node_call: "fst (node_call c n r) = r"
  by (simp add: node_call_def)

lemma submit_sends:
  assumes "SendRawTransaction t \<in> set (snd (submit w f h args))"
  shows "\<exists>est. estimate_gas (node w f h) = Inr est \<and> gas_with_margin est = Inr (tx_gas t)"
  using assms unfolding submit_def Let_def
  by (auto simp: snd_bind fst_bind snd_node_call fst_node_call split: sum.splits if_splits)

lemma execute_tx_sends:
  assumes "SendRawTransaction t \<in> set (snd (execute_tx w f h sig))"
  shows "\<exists>est. estimate_gas (node w f h) = Inr est \<and> gas_with_margin est = Inr (tx_gas t)"
proof -
  from assms have "SendRawTransaction t \<in> set (snd (submit w f h
      (case sig of None \<Rightarrow> [h] | Some s \<Rightarrow> [h, s])))"
    by (auto simp: execute_tx_def snd_bind split: sum.splits)
  then show ?thesis by (rule submit_sends)
qed

lemma utils_execute_tx_sends:
  assumes "SendRawTransaction t \<in> set (snd (utils_execute_tx w f h sig))"
  shows "\<exists>est. estimate_gas (node w f h) = Inr est \<and> gas_with_margin est = Inr (tx_gas t)"
proof -
  from assms have "SendRawTransaction t \<in> set (snd (submit w f h
      (case sig of None \<Rightarrow> [h] | Some s \<Rightarrow> if s = [] then [h] else [h, s])))"
    by (auto simp: utils_execute_tx_def check_contract_salt_def snd_bind fst_bind
        split: sum.splits if_splits)
  then show ?thesis by (rule submit_sends)
qed

section \<open>Traces of the handler\<close>

lemma only_bind:
  assumes "\<forall>a \<in> set (snd m). P a" and "\<And>x. \<forall>a \<in> set (snd (f x)). P a"
  shows "\<forall>a \<in> set (snd (bind m f)). P a"
  using assms by (auto simp: snd_bind split: sum.splits)

lemma only_try_except:
  assumes "\<forall>a \<in> set (snd m). P a" and "\<And>e. \<forall>a \<in> set (snd (h e)). P a"
  shows "\<forall>a \<in> set (snd (try_except m h)). P a"
  using assms by (auto simp: snd_try_except split: sum.splits)

lemma only_emit: "P a \<Longrightarrow> \<forall>x \<in> set (snd (emit a)). P x"
  by simp

lemma only_lift: "\<forall>x \<in> set (snd (lift r)). P x"
  by simp

lemma only_ret: "\<forall>x \<in> set (snd (ret r)). P x"
  by simp

lemma only_node_call: "P (NodeCall c n) \<Longrightarrow> \<forall>x \<in> set (snd (node_call c n r)). P x"
  by (simp add: snd_node_call)

lemma only_report: "\<forall>a \<in> set (snd (report cs)). audit_act a"
  by (induction cs rule: report.induct) (auto simp: audit_act_def split: prod.splits)

lemma only_fetch: "\<forall>a \<in> set (snd (fetch_intent_payload w h)). audit_act a"
  by (simp add: snd_fetch audit_act_def)

lemma only_http_post: "\<forall>a \<in> set (snd (http_post w u k b)). audit_act a"
  by (simp add: snd_http_post audit_act_def)

lemma only_check_timestamp: "\<forall>a \<in> set (snd (check_timestamp cfg w p)). audit_act a"
  unfolding check_timestamp_def
  by (intro only_bind only_emit only_lift only_ret) (simp_all add: audit_act_def)

lemma only_check_amount: "\<forall>a \<in> set (snd (check_amount cfg p)). audit_act a"
  by (simp add: trace_check_amount audit_act_def)

lemma only_check_geography: "\<forall>a \<in> set (snd (check_geography cfg p)). audit_act a"
  by (simp add: trace_check_geography audit_act_def)

lemma only_check_external_risk: "\<forall>a \<in> set (snd (check_external_risk cfg w p)). audit_act a"
proof -
  have r: "\<forall>a \<in> set (snd (raise_for_status r)). audit_act a" for r
    by (simp add: raise_for_status_def split: http_result.splits)
  have j: "\<forall>a \<in> set (snd (response_json r)). audit_act a" for r
    by (simp add: response_json_def split: http_result.splits option.splits)
  show ?thesis
  proof (cases "falsy (risk_api_key cfg)")
    case True
    then show ?thesis
      by (simp add: check_external_risk_def audit_act_def)
  next
    case False
    then show ?thesis
      unfolding check_external_risk_def
      apply (simp only: if_False)
      apply (intro only_bind only_emit only_try_except only_lift only_ret only_http_post r j)
       apply (simp_all add: audit_act_def)
      done
  qed
qed

lemma only_audit: "\<forall>a \<in> set (snd (perform_cra_audit cfg w h)). audit_act a"
  unfolding perform_cra_audit_def run_audit_def
  by (intro only_try_except only_bind only_emit only_ret only_fetch only_check_timestamp
      only_check_amount only_check_geography only_check_external_risk only_report)
    (simp add: audit_act_def)

lemma only_submit: "\<forall>a \<in> set (snd (submit w f h args)). tx_act f a"
  unfolding submit_def Let_def
  by (intro only_bind only_node_call only_emit only_lift)
    (auto intro!: only_ret only_lift simp: tx_act_def)

lemma only_execute_tx: "\<forall>a \<in> set (snd (execute_tx w f h sig)). tx_act f a"
  unfolding execute_tx_def
  by (intro only_bind only_submit only_emit) (simp add: tx_act_def)

lemma snd_sign_intent: "snd (sign_intent w h) = [SignHash h]"
  by (simp add: sign_intent_def)

lemma handle_intent_processed:
  "intentHash ev \<in> processed st \<Longrightarrow> handle_intent cfg w ev st = (Inr (), st)"
  by (simp add: handle_intent_def)

lemma fst_verify_then_seize: "fst (verify_then_seize w h sig) = Inr ()"
  by (simp add: verify_then_seize_def fst_try_except split: sum.splits)

lemma handle_intent_new:
  assumes "intentHash ev \<notin> processed st"
  shows "handle_intent cfg w ev st =
     (let h = intentHash ev; t = snd (perform_cra_audit cfg w h) in
      case fst (perform_cra_audit cfg w h) of
        Inl e \<Rightarrow> (Inl e, st\<lparr>trace := trace st @ LogNewIntent h # t\<rparr>)
      | Inr ok \<Rightarrow>
          if \<not> ok then
            (Inr (), st\<lparr>processed := insert h (processed st),
                        trace := trace st @ LogNewIntent h # t @ [LogAuditFailed, ProcessedAdd h]\<rparr>)
          else
            (case fst (sign_intent w h) of
               Inl e \<Rightarrow> (Inl e, st\<lparr>trace := trace st @ LogNewIntent h # t @ [SignHash h]\<rparr>)
             | Inr sig \<Rightarrow>
                 (Inr (), st\<lparr>processed := insert h (processed st),
                             trace := trace st @ LogNewIntent h # t @ SignHash h #
                                        snd (verify_then_seize w h sig) @ [ProcessedAdd h]\<rparr>)))"
  using assms
  by (simp add: handle_intent_def Let_def next_step_def perform_def processed_add_def
      snd_sign_intent fst_verify_then_seize split: sum.splits)

lemma submit_reverted:
  assumes "LogSent f tx_hash \<in> set (snd (submit w f h args))"
    and "wait_for_transaction_receipt (node w f h) tx_hash = Inr receipt"
    and "status receipt \<noteq> 1"
  shows "fst (submit w f h args) = Inl (RuntimeError f (status receipt))"
  using assms unfolding submit_def Let_def
  by (auto simp: snd_bind fst_bind snd_node_call fst_node_call split: sum.splits if_splits)

lemma execute_tx_reverted:
  assumes "LogSent f tx_hash \<in> set (snd (execute_tx w f h sig))"
    and "wait_for_transaction_receipt (node w f h) tx_hash = Inr receipt"
    and "status receipt \<noteq> 1"
  shows "fst (execute_tx w f h sig) = Inl (RuntimeError f (status receipt))"
proof -
  let ?args = "case sig of None \<Rightarrow> [h] | Some s \<Rightarrow> [h, s]"
  from assms(1) have "LogSent f tx_hash \<in> set (snd (submit w f h ?args))"
    by (auto simp: execute_tx_def snd_bind split: sum.splits)
  then have "fst (submit w f h ?args) = Inl (RuntimeError f (status receipt))"
    using assms(2,3) by (rule submit_reverted)
  then show ?thesis by (simp add: execute_tx_def fst_bind)
qed

lemma tx_act_unique: "tx_act f a \<Longrightarrow> tx_act g a \<Longrightarrow> f = g"
  by (cases a) (simp_all add: tx_act_def)

lemma audit_act_not_tx: "audit_act a \<Longrightarrow> \<not> tx_act f a"
  by (cases a) (simp_all add: tx_act_def audit_act_def)

lemma verify_failed_trace:
  assumes "fst (execute_tx w ''verifyIntent'' h (Some sig)) = Inl e"
  shows "snd (verify_then_seize w h sig) =
           snd (execute_tx w ''verifyIntent'' h (Some sig)) @ [LogExecError e]"
  using assms by (simp add: verify_then_seize_def snd_try_except fst_bind snd_bind)

lemma verify_failed_no_seize:
  assumes "fst (execute_tx w ''verifyIntent'' h (Some sig)) = Inl e"
  shows "\<forall>a \<in> set (snd (verify_then_seize w h sig)). \<not> tx_act ''seizeAssets'' a"
proof
  fix a assume "a \<in> set (snd (verify_then_seize w h sig))"
  then have "a \<in> set (snd (execute_tx w ''verifyIntent'' h (Some sig))) \<or> a = LogExecError e"
    by (auto simp: verify_failed_trace [OF assms])
  then show "\<not> tx_act ''seizeAssets'' a"
  proof
    assume "a \<in> set (snd (execute_tx w ''verifyIntent'' h (Some sig)))"
    then have "tx_act ''verifyIntent'' a" using only_execute_tx by blast
    then show ?thesis using tx_act_unique [of "''verifyIntent''" a "''seizeAssets''"] by auto
  next
    assume "a = LogExecError e"
    then show ?thesis by (simp add: tx_act_def)
  qed
qed

lemma handle_intent_no_seize:
  assumes v: "\<forall>sig. fst (sign_intent w (intentHash ev)) = Inr sig \<longrightarrow>
       (\<exists>e. fst (execute_tx w ''verifyIntent'' (intentHash ev) (Some sig)) = Inl e)"
  shows "\<exists>new. trace (snd (handle_intent cfg w ev st)) = trace st @ new \<and>
           (\<forall>a \<in> set new. \<not> tx_act ''seizeAssets'' a)"
proof (cases "intentHash ev \<in> processed st")
  case True
  then show ?thesis by (simp add: handle_intent_processed)
next
  case False
  let ?h = "intentHash ev"
  have t: "\<forall>a \<in> set (snd (perform_cra_audit cfg w ?h)). \<not> tx_act ''seizeAssets'' a"
    using only_audit audit_act_not_tx by blast
  show ?thesis
  proof (cases "fst (sign_intent w ?h)")
    case (Inl e)
    then show ?thesis
      using t by (auto simp: handle_intent_new [OF False] Let_def tx_act_def split: sum.splits)
  next
    case (Inr s)
    then have "\<forall>a \<in> set (snd (verify_then_seize w ?h s)). \<not> tx_act ''seizeAssets'' a"
      using v verify_failed_no_seize by blast
    then show ?thesis
      using t Inr by (auto simp: handle_intent_new [OF False] Let_def tx_act_def split: sum.splits)
  qed
qed

lemma gas_100000: "gas_with_margin 100000 = Inr 120000"
  using gas_with_margin_floor [of 100000] by simp

lemmas exec_defs = execute_tx_def submit_def node_call_def sign_intent_def verify_then_seize_def
  handle_intent_def next_step_def perform_def processed_add_def init_state_def Let_def

lemma audit_act_handler: "audit_act a \<Longrightarrow> handler_act a"
  by (cases a) (simp_all add: audit_act_def handler_act_def)

lemma tx_act_handler: "tx_act f a \<Longrightarrow> handler_act a"
  by (cases a) (simp_all add: tx_act_def handler_act_def)

lemma only_verify_then_seize: "\<forall>a \<in> set (snd (verify_then_seize w h sig)). handler_act a"
proof -
  have "\<forall>a \<in> set (snd (execute_tx w f h s)). handler_act a" for f s
    using only_execute_tx tx_act_handler by blast
  then show ?thesis
    unfolding verify_then_seize_def
    by (intro only_try_except only_bind only_emit) (simp_all add: handler_act_def)
qed

lemma handle_intent_cases:
  fixes cfg w ev st
  defines "h \<equiv> intentHash ev"
  obtains
    (skip) "h \<in> processed st" "handle_intent cfg w ev st = (Inr (), st)"
  | (added) acts where "h \<notin> processed st" "\<forall>a \<in> set acts. handler_act a"
      "handle_intent cfg w ev st =
         (Inr (), st\<lparr>processed := insert h (processed st),
                     trace := trace st @ LogNewIntent h # snd (perform_cra_audit cfg w h) @
                                acts @ [ProcessedAdd h]\<rparr>)"
  | (raised) e acts where "h \<notin> processed st" "\<forall>a \<in> set acts. handler_act a"
      "handle_intent cfg w ev st =
         (Inl e, st\<lparr>trace := trace st @ LogNewIntent h # snd (perform_cra_audit cfg w h) @
                                acts\<rparr>)"
proof (cases "h \<in> processed st")
  case True
  then show ?thesis using skip handle_intent_processed by (simp add: h_def)
next
  case False
  note new = handle_intent_new [of ev st cfg w, OF False [unfolded h_def], folded h_def]
  show ?thesis
  proof (cases "fst (perform_cra_audit cfg w h)")
    case (Inl e)
    then show ?thesis
      using raised [of "[]" e] False new by (simp add: Let_def)
  next
    case (Inr ok)
    show ?thesis
    proof (cases ok)
      case False
      then show ?thesis
        using added [of "[LogAuditFailed]"] \<open>h \<notin> processed st\<close> new Inr
        by (simp add: Let_def handler_act_def)
    next
      case True
      show ?thesis
      proof (cases "fst (sign_intent w h)")
        case (Inl e)
        then show ?thesis
          using raised [of "[SignHash h]" e] \<open>h \<notin> processed st\<close> new Inr True
          by (simp add: Let_def handler_act_def)
      next
        case (Inr sig)
        have "\<forall>a \<in> set (SignHash h # snd (verify_then_seize w h sig)). handler_act a"
          using only_verify_then_seize by (simp add: handler_act_def)
        then show ?thesis
          using added [of "SignHash h # snd (verify_then_seize w h sig)"]
            \<open>h \<notin> processed st\<close> new \<open>fst (perform_cra_audit cfg w h) = Inr ok\<close> True Inr
          by (simp add: Let_def)
      qed
    qed
  qed
qed

lemma additions_Nil [simp]: "additions [] = []"
  by (simp add: additions_def)

lemma additions_Cons [simp]:
  "additions (a # t) = (case a of ProcessedAdd h \<Rightarrow> [h] | _ \<Rightarrow> []) @ additions t"
  by (simp add: additions_def)

lemma additions_append [simp]: "additions (t @ u) = additions t @ additions u"
  by (simp add: additions_def)





lemma handle_intent_returns_processed:
  assumes "fst (handle_intent cfg w ev st) = Inr ()"
  shows "intentHash ev \<in> processed (snd (handle_intent cfg w ev st))"
  using assms by (cases cfg w ev st rule: handle_intent_cases) auto








lemma handle_intent_no_salt_call:
  "\<exists>new. trace (snd (handle_intent cfg w ev st)) = trace st @ new \<and> SaltCall \<notin> set new"
proof (cases cfg w ev st rule: handle_intent_cases)
  case skip
  then show ?thesis by simp
next
  case (added acts)
  moreover have "SaltCall \<notin> set (snd (perform_cra_audit cfg w (intentHash ev)))"
    using only_audit [of cfg w "intentHash ev"] by (auto simp: audit_act_def)
  moreover have "SaltCall \<notin> set acts"
    using added(2) by (auto simp: handler_act_def)
  ultimately show ?thesis by simp
next
  case (raised e acts)
  moreover have "SaltCall \<notin> set (snd (perform_cra_audit cfg w (intentHash ev)))"
    using only_audit [of cfg w "intentHash ev"] by (auto simp: audit_act_def)
  moreover have "SaltCall \<notin> set acts"
    using raised(2) by (auto simp: handler_act_def)
  ultimately show ?thesis by simp
qed

section \<open>The monitor\<close>

lemma announced_Nil [simp]: "announced [] = []"
  by (simp add: announced_def)

lemma announced_Cons [simp]:
  "announced (a # t) = (case a of LogNewIntent h \<Rightarrow> [h] | _ \<Rightarrow> []) @ announced t"
  by (simp add: announced_def)

lemma announced_append [simp]: "announced (t @ u) = announced t @ announced u"
  by (simp add: announced_def)

lemma announced_handler: "\<forall>a \<in> set t. handler_act a \<Longrightarrow> announced t = []"
  by (induction t) (auto simp: handler_act_def split: action.splits)

lemma announced_audit: "announced (snd (perform_cra_audit cfg w h)) = []"
  using only_audit [of cfg w h] audit_act_handler by (intro announced_handler) blast

lemma not_monitor_error: "\<forall>a \<in> set t. handler_act a \<Longrightarrow> LogMonitorError e \<notin> set t"
  by (auto simp: handler_act_def)

lemma handle_intent_step:
  "\<exists>new. trace (snd (handle_intent cfg w ev st)) = trace st @ new \<and>
         (announced new = [] \<or> announced new = [intentHash ev]) \<and>
         (\<forall>e. LogMonitorError e \<notin> set new) \<and>
         processed st \<subseteq> processed (snd (handle_intent cfg w ev st)) \<and>
         processed (snd (handle_intent cfg w ev st)) \<subseteq> insert (intentHash ev) (processed st)"
proof (cases cfg w ev st rule: handle_intent_cases)
  case skip
  then show ?thesis by auto
next
  case (added acts)
  have "LogMonitorError e \<notin> set (snd (perform_cra_audit cfg w (intentHash ev)))" for e
    using only_audit [of cfg w "intentHash ev"] by (auto simp: audit_act_def)
  then show ?thesis
    using added announced_handler [OF added(2)] not_monitor_error [OF added(2)]
    by (auto simp: announced_audit)
next
  case (raised e acts)
  have "LogMonitorError e \<notin> set (snd (perform_cra_audit cfg w (intentHash ev)))" for e
    using only_audit [of cfg w "intentHash ev"] by (auto simp: audit_act_def)
  then show ?thesis
    using raised announced_handler [OF raised(2)] not_monitor_error [OF raised(2)]
    by (auto simp: announced_audit)
qed

lemma for_each_step:
  "\<exists>new. trace (snd (for_each (handle_intent cfg w) evs st)) = trace st @ new \<and>
         subseq (announced new) (map intentHash evs) \<and>
         (\<forall>e. LogMonitorError e \<notin> set new) \<and>
         processed st \<subseteq> processed (snd (for_each (handle_intent cfg w) evs st)) \<and>
         processed (snd (for_each (handle_intent cfg w) evs st))
           \<subseteq> processed st \<union> intentHash ` set evs \<and>
         (fst (for_each (handle_intent cfg w) evs st) = Inr () \<longrightarrow>
            intentHash ` set evs \<subseteq> processed (snd (for_each (handle_intent cfg w) evs st)))"
proof (induction evs arbitrary: st)
  case Nil
  then show ?case by simp
next
  case (Cons ev evs)
  obtain r st1 where h: "handle_intent cfg w ev st = (r, st1)"
    by (cases "handle_intent cfg w ev st")
  obtain n1 where n1: "trace st1 = trace st @ n1"
    "announced n1 = [] \<or> announced n1 = [intentHash ev]"
    "\<forall>e. LogMonitorError e \<notin> set n1"
    "processed st \<subseteq> processed st1" "processed st1 \<subseteq> insert (intentHash ev) (processed st)"
    using handle_intent_step [of cfg w ev st] h by auto
  have a1: "subseq (announced n1) [intentHash ev]"
    using n1(2) by auto
  show ?case
  proof (cases r)
    case (Inl e)
    then have "for_each (handle_intent cfg w) (ev # evs) st = (Inl e, st1)"
      using h by simp
    moreover have "subseq (announced n1) (map intentHash (ev # evs))"
      using n1(2) by auto
    ultimately show ?thesis
      using n1 by (intro exI [of _ n1]) auto
  next
    case (Inr u)
    then have f: "for_each (handle_intent cfg w) (ev # evs) st =
        for_each (handle_intent cfg w) evs st1"
      using h by simp
    have p: "intentHash ev \<in> processed st1"
      using handle_intent_returns_processed [of cfg w ev st] h Inr by simp
    obtain n2 where n2: "trace (snd (for_each (handle_intent cfg w) evs st1)) = trace st1 @ n2"
      "subseq (announced n2) (map intentHash evs)"
      "\<forall>e. LogMonitorError e \<notin> set n2"
      "processed st1 \<subseteq> processed (snd (for_each (handle_intent cfg w) evs st1))"
      "processed (snd (for_each (handle_intent cfg w) evs st1))
         \<subseteq> processed st1 \<union> intentHash ` set evs"
      "fst (for_each (handle_intent cfg w) evs st1) = Inr () \<longrightarrow>
         intentHash ` set evs \<subseteq> processed (snd (for_each (handle_intent cfg w) evs st1))"
      using Cons.IH [of st1] by blast
    have "subseq (announced n1 @ announced n2) ([intentHash ev] @ map intentHash evs)"
      using a1 n2(2) by (rule list_emb_append_mono)
    then have s: "subseq (announced (n1 @ n2)) (map intentHash (ev # evs))"
      by simp
    show ?thesis
      unfolding f
      using n1 n2 s p by (intro exI [of _ "n1 @ n2"]) auto
  qed
qed

lemma monitor_job_entries:
  assumes "create_filter w = Inr n" and "get_new_entries w n = Inr entries"
  shows "monitor_job cfg w st =
     (case for_each (handle_intent cfg w) entries
             (st\<lparr>trace := trace st @ [NodeCall ''monitor'' ''create_filter'',
                                       NodeCall ''monitor'' ''get_new_entries'']\<rparr>) of
        (Inl exc, st') \<Rightarrow> st'\<lparr>trace := trace st' @ [LogMonitorError exc]\<rparr>
      | (Inr _, st') \<Rightarrow> st')"
  using assms
  by (simp add: monitor_job_def next_step_def perform_def node_call_def
      split: prod.splits sum.splits)

lemma monitor_job_step:
  assumes "create_filter w = Inr n" and "get_new_entries w n = Inr entries"
  shows "\<exists>new. trace (monitor_job cfg w st) = trace st @ new \<and>
           subseq (announced new) (map intentHash entries) \<and>
           processed st \<subseteq> processed (monitor_job cfg w st) \<and>
           processed (monitor_job cfg w st) \<subseteq> processed st \<union> intentHash ` set entries \<and>
           ((\<forall>e. LogMonitorError e \<notin> set new) \<longrightarrow>
              intentHash ` set entries \<subseteq> processed (monitor_job cfg w st))"
proof -
  let ?cg = "[NodeCall ''monitor'' ''create_filter'', NodeCall ''monitor'' ''get_new_entries'']"
  let ?st0 = "st\<lparr>trace := trace st @ ?cg\<rparr>"
  obtain r st1 where f: "for_each (handle_intent cfg w) entries ?st0 = (r, st1)"
    by (cases "for_each (handle_intent cfg w) entries ?st0")
  obtain n1 where n1: "trace st1 = trace ?st0 @ n1"
    "subseq (announced n1) (map intentHash entries)"
    "\<forall>e. LogMonitorError e \<notin> set n1"
    "processed ?st0 \<subseteq> processed st1"
    "processed st1 \<subseteq> processed ?st0 \<union> intentHash ` set entries"
    "r = Inr () \<longrightarrow> intentHash ` set entries \<subseteq> processed st1"
    using for_each_step [of cfg w entries ?st0] f by auto
  note m = monitor_job_entries [OF assms, of cfg st]
  show ?thesis
  proof (cases r)
    case (Inl exc)
    then have "monitor_job cfg w st = st1\<lparr>trace := trace st1 @ [LogMonitorError exc]\<rparr>"
      using m f by simp
    then show ?thesis
      using n1 by (intro exI [of _ "?cg @ n1 @ [LogMonitorError exc]"]) auto
  next
    case (Inr u)
    then have "monitor_job cfg w st = st1"
      using m f by simp
    then show ?thesis
      using n1 Inr by (intro exI [of _ "?cg @ n1"]) auto
  qed
qed

lemmas monitor_defs = monitor_job_def scheduler.simps for_each.simps

lemma handle_intent_signs_only_after_audit:
  assumes "trace (snd (handle_intent cfg w ev st)) = trace st @ new"
    and "SignHash h \<in> set new"
  shows "h = intentHash ev \<and> fst (perform_cra_audit cfg w h) = Inr True"
proof (cases "intentHash ev \<in> processed st")
  case True
  then show ?thesis using assms by (simp add: handle_intent_processed)
next
  case False
  have a: "SignHash h \<notin> set (snd (perform_cra_audit cfg w (intentHash ev)))"
    using only_audit [of cfg w "intentHash ev"] by (auto simp: audit_act_def)
  have v: "SignHash h \<notin> set (snd (verify_then_seize w (intentHash ev) s))" for s
  proof -
    have "\<forall>a \<in> set (snd (execute_tx w f (intentHash ev) x)). a \<noteq> SignHash h" for f x
      using only_execute_tx [of w f "intentHash ev" x] by (auto simp: tx_act_def)
    then have "\<forall>a \<in> set (snd (verify_then_seize w (intentHash ev) s)). a \<noteq> SignHash h"
      unfolding verify_then_seize_def
      by (intro only_try_except only_bind only_emit) simp_all
    then show ?thesis by blast
  qed
  show ?thesis
    using assms a v
    by (auto simp: handle_intent_new [OF False] Let_def split: sum.splits if_splits)
qed

section \<open>Claims\<close>



text \<open>
  Claim C10. The audit is total: \<open>perform_cra_audit\<close> of either module returns a
  boolean for every input and never raises. When the payload fetch raises, or one of
  the timestamp, amount and geography checks raises on the fetched payload, the audit
  returns false. The external risk check itself never raises; with a credential
  configured and no \<open>intentHash\<close> in the payload it returns false, and so does the
  audit.
\<close>

theorem audit_never_raises:
  "(\<exists>b. fst (perform_cra_audit cfg w h) = Inr b) \<and>
   (\<exists>b. fst (cra_audit_perform_cra_audit cfg w h) = Inr b) \<and>
   ((\<exists>e. fst (fetch_intent_payload w h) = Inl e) \<longrightarrow>
      fst (perform_cra_audit cfg w h) = Inr False \<and>
      fst (cra_audit_perform_cra_audit cfg w h) = Inr False) \<and>
   (\<forall>p. fst (fetch_intent_payload w h) = Inr p \<longrightarrow>
      ((\<exists>e. fst (check_timestamp cfg w p) = Inl e \<or> fst (check_amount cfg p) = Inl e \<or>
            fst (check_geography cfg p) = Inl e) \<longrightarrow>
         fst (perform_cra_audit cfg w h) = Inr False) \<and>
      ((\<exists>e. fst (cra_audit_check_timestamp cfg w p) = Inl e \<or>
            fst (check_amount cfg p) = Inl e \<or> fst (check_geography cfg p) = Inl e) \<longrightarrow>
         fst (cra_audit_perform_cra_audit cfg w h) = Inr False) \<and>
      (\<exists>b. fst (check_external_risk cfg w p) = Inr b) \<and>
      (\<not> falsy (risk_api_key cfg) \<and> (\<exists>e. dict_getitem p ''intentHash'' = Inl e) \<longrightarrow>
         fst (check_external_risk cfg w p) = Inr False \<and>
         fst (perform_cra_audit cfg w h) = Inr False \<and>
         fst (cra_audit_perform_cra_audit cfg w h) = Inr False))"
proof -
  have 1: "\<exists>b. fst (perform_cra_audit cfg w h) = Inr b"
    "\<exists>b. fst (cra_audit_perform_cra_audit cfg w h) = Inr b"
    unfolding perform_cra_audit_def cra_audit_perform_cra_audit_def
    by (rule run_audit_returns)+
  have 2: "fst (perform_cra_audit cfg w h) = Inr False"
    "fst (cra_audit_perform_cra_audit cfg w h) = Inr False"
    if "fst (fetch_intent_payload w h) = Inl e" for e
    unfolding perform_cra_audit_def cra_audit_perform_cra_audit_def
    using that by (rule run_audit_fetch_failed(1))+
  have 3: "fst (perform_cra_audit cfg w h) = Inr False"
    if "fst (fetch_intent_payload w h) = Inr p"
      "fst (check_timestamp cfg w p) = Inl e \<or> fst (check_amount cfg p) = Inl e \<or>
       fst (check_geography cfg p) = Inl e" for p e
    unfolding perform_cra_audit_def using that by (rule run_audit_check_raises)
  have 4: "fst (cra_audit_perform_cra_audit cfg w h) = Inr False"
    if "fst (fetch_intent_payload w h) = Inr p"
      "fst (cra_audit_check_timestamp cfg w p) = Inl e \<or> fst (check_amount cfg p) = Inl e \<or>
       fst (check_geography cfg p) = Inl e" for p e
    unfolding cra_audit_perform_cra_audit_def using that by (rule run_audit_check_raises)
  have 5: "fst (check_external_risk cfg w p) = Inr False \<and>
      fst (perform_cra_audit cfg w h) = Inr False \<and>
      fst (cra_audit_perform_cra_audit cfg w h) = Inr False"
    if "fst (fetch_intent_payload w h) = Inr p" "\<not> falsy (risk_api_key cfg)"
      "dict_getitem p ''intentHash'' = Inl e" for p e
  proof -
    have r: "fst (check_external_risk cfg w p) = Inr False"
      using that(2,3) by (rule risk_request_raises)
    then show ?thesis
      unfolding perform_cra_audit_def cra_audit_perform_cra_audit_def
      using that(1) by (simp add: fst_run_audit split: sum.splits)
  qed
  show ?thesis
    using 1 2 3 4 5 check_external_risk_returns by blast
qed

text \<open>An amount that is not a number, a payload without the intent hash, and a
  payload store out of reach: each audit returns false.\<close>

theorem audit_never_raises_witness:
  "fst (fetch_intent_payload (serving payload_bad_amount) [1]) = Inr payload_bad_amount \<and>
   fst (check_amount (CRA_CONFIG ''key'') payload_bad_amount) = Inl ValueError \<and>
   fst (perform_cra_audit (CRA_CONFIG ''key'') (serving payload_bad_amount) [1]) = Inr False \<and>
   fst (fetch_intent_payload (serving payload_no_hash) [1]) = Inr payload_no_hash \<and>
   \<not> falsy (risk_api_key (CRA_CONFIG ''key'')) \<and>
   dict_getitem payload_no_hash ''intentHash'' = Inl (KeyError ''intentHash'') \<and>
   fst (check_external_risk (CRA_CONFIG ''key'') (serving payload_no_hash) payload_no_hash) = Inr False \<and>
   fst (perform_cra_audit (CRA_CONFIG ''key'') (serving payload_no_hash) [1]) = Inr False \<and>
   fst (fetch_intent_payload offline [1]) = Inl RequestException \<and>
   fst (perform_cra_audit (CRA_CONFIG ''key'') offline [1]) = Inr False"
proof -
  have f1: "fst (fetch_intent_payload (serving payload_bad_amount) [1]) = Inr payload_bad_amount"
    by (simp add: audit_defs world_defs)
  have a1: "fst (check_amount (CRA_CONFIG ''key'') payload_bad_amount) = Inl ValueError"
    by (simp add: audit_defs world_defs py_defs)
  have f2: "fst (fetch_intent_payload (serving payload_no_hash) [1]) = Inr payload_no_hash"
    by (simp add: audit_defs world_defs)
  have k: "\<not> falsy (risk_api_key (CRA_CONFIG ''key''))"
    by (simp add: falsy_def CRA_CONFIG_def)
  have a2: "dict_getitem payload_no_hash ''intentHash'' = Inl (KeyError ''intentHash'')"
    by (simp add: dict_getitem_def payload_no_hash_def)
  have f3: "fst (fetch_intent_payload offline [1]) = Inl RequestException"
    by (simp add: audit_defs world_defs)
  note t1 = audit_never_raises [of "CRA_CONFIG ''key''" "serving payload_bad_amount" "[1]"]
  note t2 = audit_never_raises [of "CRA_CONFIG ''key''" "serving payload_no_hash" "[1]"]
  note t3 = audit_never_raises [of "CRA_CONFIG ''key''" offline "[1]"]
  from t1 f1 a1
  have r1: "fst (perform_cra_audit (CRA_CONFIG ''key'') (serving payload_bad_amount) [1]) = Inr False"
    by blast
  from t2 f2 k a2
  have r2: "fst (check_external_risk (CRA_CONFIG ''key'') (serving payload_no_hash) payload_no_hash) = Inr False"
    "fst (perform_cra_audit (CRA_CONFIG ''key'') (serving payload_no_hash) [1]) = Inr False"
    by blast+
  from t3 f3 have r3: "fst (perform_cra_audit (CRA_CONFIG ''key'') offline [1]) = Inr False"
    by blast
  show ?thesis using f1 a1 r1 f2 k a2 r2 f3 r3 by simp
qed

text \<open>
  Claim C2, as amended. The dictionary of the four results is built before the loop
  that reads it, so the checks are called in the fixed order timestamp, amount,
  geography, external risk, and all four are called whenever the payload fetch succeeds
  and none of the first three raises, whatever they return: the trace of the audit
  enters the four checks in this order and contains the whole trace of the external
  risk check, its request to the risk service included. What stops at the first failing
  check is the loop over the results: the log lines are those of the checks up to and
  including the first one that failed, and the result is the conjunction of the four.
  This holds of \<open>perform_cra_audit\<close> in ghost\_oracle.py and in cra\_audit.py.
\<close>

theorem audit_calls_every_check:
  assumes "fst (fetch_intent_payload w h) = Inr p"
    and "fst (check_amount cfg p) = Inr c2"
    and "fst (check_geography cfg p) = Inr c3"
  shows
    "(fst (check_timestamp cfg w p) = Inr c1 \<longrightarrow>
        entered (snd (perform_cra_audit cfg w h)) =
          [''timestamp'', ''amount'', ''geography'', ''externalRisk''] \<and>
        (\<exists>t1 t2. snd (perform_cra_audit cfg w h) =
                   t1 @ snd (check_external_risk cfg w p) @ t2) \<and>
        reported (snd (perform_cra_audit cfg w h)) =
          (let cs = [(''timestamp'', c1), (''amount'', c2), (''geography'', c3),
                     (''externalRisk'', fst (check_external_risk cfg w p) = Inr True)]
           in takeWhile snd cs @ take 1 (dropWhile snd cs)) \<and>
        fst (perform_cra_audit cfg w h) =
          Inr (c1 \<and> c2 \<and> c3 \<and> fst (check_external_risk cfg w p) = Inr True)) \<and>
     (fst (cra_audit_check_timestamp cfg w p) = Inr c1 \<longrightarrow>
        entered (snd (cra_audit_perform_cra_audit cfg w h)) =
          [''timestamp'', ''amount'', ''geography'', ''externalRisk''] \<and>
        (\<exists>t1 t2. snd (cra_audit_perform_cra_audit cfg w h) =
                   t1 @ snd (check_external_risk cfg w p) @ t2) \<and>
        reported (snd (cra_audit_perform_cra_audit cfg w h)) =
          (let cs = [(''timestamp'', c1), (''amount'', c2), (''geography'', c3),
                     (''externalRisk'', fst (check_external_risk cfg w p) = Inr True)]
           in takeWhile snd cs @ take 1 (dropWhile snd cs)) \<and>
        fst (cra_audit_perform_cra_audit cfg w h) =
          Inr (c1 \<and> c2 \<and> c3 \<and> fst (check_external_risk cfg w p) = Inr True))"
proof (intro conjI impI)
  assume c1: "fst (check_timestamp cfg w p) = Inr c1"
  note r = run_audit_all_checks [of w h p "check_timestamp cfg w" c1 cfg c2 c3,
      OF assms(1) c1 assms(2,3) trace_check_timestamp, folded perform_cra_audit_def]
  show "entered (snd (perform_cra_audit cfg w h)) =
          [''timestamp'', ''amount'', ''geography'', ''externalRisk'']"
    by (rule r(1))
  show "\<exists>t1 t2. snd (perform_cra_audit cfg w h) = t1 @ snd (check_external_risk cfg w p) @ t2"
    by (rule r(2))
  show "reported (snd (perform_cra_audit cfg w h)) =
          (let cs = [(''timestamp'', c1), (''amount'', c2), (''geography'', c3),
                     (''externalRisk'', fst (check_external_risk cfg w p) = Inr True)]
           in takeWhile snd cs @ take 1 (dropWhile snd cs))"
    by (rule r(3))
  show "fst (perform_cra_audit cfg w h) =
          Inr (c1 \<and> c2 \<and> c3 \<and> fst (check_external_risk cfg w p) = Inr True)"
    by (rule r(4))
next
  assume c1: "fst (cra_audit_check_timestamp cfg w p) = Inr c1"
  note r = run_audit_all_checks [of w h p "cra_audit_check_timestamp cfg w" c1 cfg c2 c3,
      OF assms(1) c1 assms(2,3) trace_cra_audit_check_timestamp,
      folded cra_audit_perform_cra_audit_def]
  show "entered (snd (cra_audit_perform_cra_audit cfg w h)) =
          [''timestamp'', ''amount'', ''geography'', ''externalRisk'']"
    by (rule r(1))
  show "\<exists>t1 t2. snd (cra_audit_perform_cra_audit cfg w h) =
          t1 @ snd (check_external_risk cfg w p) @ t2"
    by (rule r(2))
  show "reported (snd (cra_audit_perform_cra_audit cfg w h)) =
          (let cs = [(''timestamp'', c1), (''amount'', c2), (''geography'', c3),
                     (''externalRisk'', fst (check_external_risk cfg w p) = Inr True)]
           in takeWhile snd cs @ take 1 (dropWhile snd cs))"
    by (rule r(3))
  show "fst (cra_audit_perform_cra_audit cfg w h) =
          Inr (c1 \<and> c2 \<and> c3 \<and> fst (check_external_risk cfg w p) = Inr True)"
    by (rule r(4))
qed

text \<open>A payload a hundred days old: the timestamp check fails, the four checks are
  entered all the same, and one line is logged.\<close>

theorem audit_calls_every_check_witness:
  "fst (fetch_intent_payload (serving payload_old) [1]) = Inr payload_old \<and>
   fst (check_timestamp (CRA_CONFIG ''key'') (serving payload_old) payload_old) = Inr False \<and>
   fst (check_amount (CRA_CONFIG ''key'') payload_old) = Inr True \<and>
   fst (check_geography (CRA_CONFIG ''key'') payload_old) = Inr True \<and>
   entered (snd (perform_cra_audit (CRA_CONFIG ''key'') (serving payload_old) [1])) =
     [''timestamp'', ''amount'', ''geography'', ''externalRisk''] \<and>
   reported (snd (perform_cra_audit (CRA_CONFIG ''key'') (serving payload_old) [1])) =
     [(''timestamp'', False)] \<and>
   fst (perform_cra_audit (CRA_CONFIG ''key'') (serving payload_old) [1]) = Inr False"
proof -
  have f: "fst (fetch_intent_payload (serving payload_old) [1]) = Inr payload_old"
    by (simp add: audit_defs world_defs)
  have c1: "fst (check_timestamp (CRA_CONFIG ''key'') (serving payload_old) payload_old) = Inr False"
    by (simp add: audit_defs world_defs py_defs)
  have c2: "fst (check_amount (CRA_CONFIG ''key'') payload_old) = Inr True"
    by (simp add: audit_defs world_defs py_defs)
  have c3: "fst (check_geography (CRA_CONFIG ''key'') payload_old) = Inr True"
    by (simp add: audit_defs world_defs py_defs)
  from audit_calls_every_check [OF f c2 c3, of False] c1 f c2 c3
  show ?thesis by simp
qed

text \<open>
  The claim as stated fails at the same input: the timestamp check returns false, and
  the audit goes on to the amount, geography and external risk checks and posts the
  intent to the risk service before it logs the failure.
\<close>

theorem audit_stops_at_first_failure_counterexample:
  "fst (check_timestamp (CRA_CONFIG ''key'') (serving payload_old) payload_old) = Inr False \<and>
   snd (perform_cra_audit (CRA_CONFIG ''key'') (serving payload_old) [1]) =
     [HttpGet [1], Enter ''timestamp'', ClockRead, Enter ''amount'', Enter ''geography'',
      Enter ''externalRisk'',
      HttpPost ''https://api.riskservice.io/check'' ''key''
        (JObj [(''intentHash'', JStr ''0x2a''), (''metadata'', JObj [])]),
      LogCheck ''timestamp'' False]"
  by (simp add: audit_defs world_defs py_defs io_defs)

text \<open>
  Claim C3, as amended. Without a credential (the key is \<open>None\<close> or empty) the
  external risk check passes, whatever the payload. With a credential, the check fails
  when the request cannot be built (no \<open>intentHash\<close> in the payload, or a hash that
  \<open>to_hex\<close> refuses), on a transport error or timeout, on an error status, on a body
  that is not JSON or is not an object, and on a \<open>riskScore\<close> that is not a number.
  On an object with a numeric \<open>riskScore\<close> it passes exactly when the score is below 70.
  On an object with no \<open>riskScore\<close> at all the score defaults to 0 and the check
  passes. The function is the same in ghost\_oracle.py and cra\_audit.py.
\<close>

theorem external_risk_check:
  "(falsy (risk_api_key cfg) \<longrightarrow> fst (check_external_risk cfg w p) = Inr True) \<and>
   (\<not> falsy (risk_api_key cfg) \<longrightarrow>
      (\<forall>e. dict_getitem p ''intentHash'' = Inl e \<longrightarrow>
           fst (check_external_risk cfg w p) = Inr False) \<and>
      (\<forall>ih e. dict_getitem p ''intentHash'' = Inr ih \<longrightarrow> to_hex w ih = Inl e \<longrightarrow>
           fst (check_external_risk cfg w p) = Inr False) \<and>
      (\<forall>ih hex md.
         dict_getitem p ''intentHash'' = Inr ih \<longrightarrow> to_hex w ih = Inr hex \<longrightarrow>
         dict_get p ''metadata'' (JObj []) = Inr md \<longrightarrow>
         fst (check_external_risk cfg w p) =
           Inr (case requests_post w (risk_api cfg) (the (risk_api_key cfg))
                       (JObj [(''intentHash'', JStr hex), (''metadata'', md)]) of
                  ConnectionFailed \<Rightarrow> False
                | Response code body \<Rightarrow>
                    \<not> (400 \<le> code \<and> code < 600) \<and>
                    (case body of
                       Some (JObj kvs) \<Rightarrow>
                         (case map_of kvs ''riskScore'' of
                            None \<Rightarrow> True
                          | Some score \<Rightarrow> py_lt_int score 70 = Inr True)
                     | _ \<Rightarrow> False)))) \<and>
   (\<forall>s. py_lt_int (JInt s) 70 = Inr (s < 70)) \<and>
   (\<forall>s. py_lt_int (JStr s) 70 = Inl TypeError) \<and>
   py_lt_int JNull 70 = Inl TypeError"
proof -
  have "py_lt_int (JInt s) 70 = Inr (s < 70)" "py_lt_int (JStr t) 70 = Inl TypeError"
    "py_lt_int JNull 70 = Inl TypeError" for s t
    by (simp_all add: py_lt_int_def)
  then show ?thesis
    using check_external_risk_no_key [of cfg w p] risk_request_raises [of cfg p _ w]
      check_external_risk_no_hex [of cfg p _ w] check_external_risk_answer [of cfg p _ w]
    by blast
qed

text \<open>No key; scores 69 and 70; a transport error; a body that is not JSON; status
  503; a score that is a string; a payload without the intent hash.\<close>

theorem external_risk_check_witness:
  "fst (check_external_risk (CRA_CONFIG []) offline payload_A) = Inr True \<and>
   fst (check_external_risk (CRA_CONFIG ''key'')
          (risk_answers (Response 200 (Some (JObj [(''riskScore'', JInt 69)])))) payload_A) = Inr True \<and>
   fst (check_external_risk (CRA_CONFIG ''key'')
          (risk_answers (Response 200 (Some (JObj [(''riskScore'', JInt 70)])))) payload_A) = Inr False \<and>
   fst (check_external_risk (CRA_CONFIG ''key'') (risk_answers ConnectionFailed) payload_A) = Inr False \<and>
   fst (check_external_risk (CRA_CONFIG ''key'') (risk_answers (Response 200 None)) payload_A) = Inr False \<and>
   fst (check_external_risk (CRA_CONFIG ''key'')
          (risk_answers (Response 503 (Some (JObj [(''riskScore'', JInt 1)])))) payload_A) = Inr False \<and>
   fst (check_external_risk (CRA_CONFIG ''key'')
          (risk_answers (Response 200 (Some (JObj [(''riskScore'', JStr ''low'')])))) payload_A) = Inr False \<and>
   fst (check_external_risk (CRA_CONFIG ''key'') world_A payload_no_hash) = Inr False"
proof -
  have nokey: "falsy (risk_api_key (CRA_CONFIG []))"
    by (simp add: falsy_def CRA_CONFIG_def)
  have key: "\<not> falsy (risk_api_key (CRA_CONFIG ''key''))"
    by (simp add: falsy_def CRA_CONFIG_def)
  have ih: "dict_getitem payload_A ''intentHash'' = Inr (JInt 42)"
    by (simp add: dict_getitem_def payload_A_def)
  have hex: "to_hex (risk_answers r) (JInt 42) = Inr ''0x2a''" for r
    by (simp add: world_defs)
  have md: "dict_get payload_A ''metadata'' (JObj []) = Inr (JObj [])"
    by (simp add: dict_get_def payload_A_def)
  have nh: "dict_getitem payload_no_hash ''intentHash'' = Inl (KeyError ''intentHash'')"
    by (simp add: dict_getitem_def payload_no_hash_def)
  have post: "requests_post (risk_answers r) u k b = r" for r u k b
    by (simp add: world_defs)
  have a: "fst (check_external_risk (CRA_CONFIG ''key'') (risk_answers r) payload_A) =
      Inr (case r of
             ConnectionFailed \<Rightarrow> False
           | Response code body \<Rightarrow>
               \<not> (400 \<le> code \<and> code < 600) \<and>
               (case body of
                  Some (JObj kvs) \<Rightarrow>
                    (case map_of kvs ''riskScore'' of
                       None \<Rightarrow> True
                     | Some score \<Rightarrow> py_lt_int score 70 = Inr True)
                | _ \<Rightarrow> False))" for r
    using external_risk_check [of "CRA_CONFIG ''key''" "risk_answers r" payload_A] key ih hex md
    by (simp add: post)
  have 1: "fst (check_external_risk (CRA_CONFIG []) offline payload_A) = Inr True"
    using external_risk_check [of "CRA_CONFIG []" offline payload_A] nokey by blast
  have 2: "fst (check_external_risk (CRA_CONFIG ''key'') world_A payload_no_hash) = Inr False"
    using external_risk_check [of "CRA_CONFIG ''key''" world_A payload_no_hash] key nh by blast
  show ?thesis
    by (simp add: a 1 2 py_lt_int_def)
qed

text \<open>
  The claim as stated fails where the service answers 200 with an object that holds no
  score, here an error report: the check passes.
\<close>

theorem malformed_risk_response_fails_counterexample:
  "fst (check_external_risk (CRA_CONFIG ''key'')
          (risk_answers (Response 200 (Some (JObj [(''error'', JStr ''unavailable'')]))))
          payload_A) = Inr True"
  by (simp add: audit_defs world_defs py_defs io_defs)

text \<open>
  Claim C9, as amended. In ghost\_oracle.py the timestamp is read through \<open>int\<close>, a
  missing one as 0 and a float truncated toward zero; for a payload whose timestamp
  converts to the integer \<open>ts\<close>, of magnitude below \<open>2^1024 - 2^970\<close>, the check passes
  exactly when \<open>now - ts\<close> is at most the configured window, which is 300 by default.
  In cra\_audit.py the timestamp is an ISO string; where the parser reads it as the
  instant \<open>t\<close> (in UTC), the check passes exactly when \<open>now - t\<close>, in seconds, is at most
  the window. The comparison is one-sided, so a timestamp in the future passes.
\<close>

theorem timestamp_check:
  "(dict_get p ''timestamp'' (JInt 0) = Inr v \<longrightarrow> py_int v = Inr ts \<longrightarrow>
    \<bar>ts\<bar> < 2 ^ 1024 - 2 ^ 970 \<longrightarrow>
      fst (check_timestamp cfg w p) =
        Inr (time_time w - of_int ts \<le> of_int (time_window_seconds cfg))) \<and>
   (dict_getitem p ''timestamp'' = Inr (JStr s) \<longrightarrow> fromisoformat w s = Some t \<longrightarrow>
      fst (cra_audit_check_timestamp cfg w p) =
        Inr (of_int (datetime_now w - t) / 1000000 \<le> (of_int (time_window_seconds cfg) :: rat))) \<and>
   time_window_seconds (CRA_CONFIG key) = 300 \<and>
   time_window_seconds cra_audit_CRA_CONFIG = 300 \<and>
   py_int (JInt i) = Inr i \<and>
   py_int (JFloat (Finite q)) = Inr (trunc q) \<and>
   (map_of kvs ''timestamp'' = None \<longrightarrow>
      dict_get (JObj kvs) ''timestamp'' (JInt 0) = Inr (JInt 0))"
  using check_timestamp_result [of p v ts cfg w] cra_audit_check_timestamp_result [of p s w t cfg]
  by (simp add: CRA_CONFIG_def cra_audit_CRA_CONFIG_def py_int_def py_int_of_float_def dict_get_def)

text \<open>An age of exactly 300 seconds passes, one second (or one microsecond) more
  fails, a timestamp in the future passes.\<close>

theorem timestamp_check_witness:
  "fst (check_timestamp (CRA_CONFIG ''key'') (at_time 1700000300) payload_A) = Inr True \<and>
   fst (check_timestamp (CRA_CONFIG ''key'') (at_time 1700000301) payload_A) = Inr False \<and>
   fst (check_timestamp (CRA_CONFIG ''key'') (at_time 1699990000) payload_A) = Inr True \<and>
   fst (cra_audit_check_timestamp cra_audit_CRA_CONFIG (iso_world 1700000300000000) payload_iso) = Inr True \<and>
   fst (cra_audit_check_timestamp cra_audit_CRA_CONFIG (iso_world 1700000300000001) payload_iso) = Inr False \<and>
   fst (cra_audit_check_timestamp cra_audit_CRA_CONFIG (iso_world 1600000000000000) payload_iso) = Inr True"
proof -
  have v: "dict_get payload_A ''timestamp'' (JInt 0) = Inr (JInt 1700000000)"
    by (simp add: dict_get_def payload_A_def)
  have i: "py_int (JInt 1700000000) = Inr 1700000000"
    by (simp add: py_int_def)
  have b: "\<bar>1700000000 :: int\<bar> < 2 ^ 1024 - 2 ^ 970"
    by simp
  have s: "dict_getitem payload_iso ''timestamp'' = Inr (JStr ''2023-11-14T22:13:20'')"
    by (simp add: dict_getitem_def payload_iso_def)
  have f: "fromisoformat (iso_world n) ''2023-11-14T22:13:20'' = Some 1700000000000000" for n
    by (simp add: world_defs)
  have a: "fst (check_timestamp (CRA_CONFIG ''key'') (at_time x) payload_A) =
             Inr (x - 1700000000 \<le> 300)" for x
    using timestamp_check [where p = payload_A and v = "JInt 1700000000" and ts = 1700000000
        and cfg = "CRA_CONFIG ''key''" and w = "at_time x"] v i b
    by (simp add: world_defs)
  have c: "fst (cra_audit_check_timestamp cra_audit_CRA_CONFIG (iso_world n) payload_iso) =
             Inr (of_int (n - 1700000000000000) / 1000000 \<le> (300 :: rat))" for n
    using timestamp_check [where p = payload_iso and cfg = cra_audit_CRA_CONFIG
        and w = "iso_world n" and s = "''2023-11-14T22:13:20''" and t = 1700000000000000] s f
    by (simp add: world_defs)
  show ?thesis
    by (simp add: a c)
qed

text \<open>
  The claim as stated fails for a timestamp with a fraction: at the clock reading
  \<open>1700000300.25\<close> the payload stamped \<open>1700000000.5\<close> is \<open>299.75\<close> seconds old, within
  the window, and the check fails, because it compares \<open>now - 1700000000\<close>.
\<close>

theorem timestamp_check_counterexample:
  "fst (check_timestamp (CRA_CONFIG ''key'') (at_time (6800001201 / 4)) payload_half_second)
     = Inr False \<and>
   time_time (at_time (6800001201 / 4)) - 3400000001 / 2
     \<le> of_int (time_window_seconds (CRA_CONFIG ''key''))"
proof -
  have t: "trunc (3400000001 / 2) = 1700000000"
    by (simp add: trunc_def floor_eq_iff)
  show ?thesis
    by (simp add: audit_defs world_defs dict_get_def py_int_def py_int_of_float_def
        float_sub_int_def t)
qed

text \<open>
  Claim C4, as amended. The gas limit is \<open>int(estimated * 1.2)\<close>: the product of the
  estimate and the double \<open>1.2\<close>, rounded to a double, then truncated. For every estimate
  below \<open>2^50\<close> this is the floor of six fifths of the estimate, and it is the gas limit
  of every transaction that \<open>execute_tx\<close> of ghost\_oracle.py or of utils.py sends. It
  equals the ceiling exactly when the estimate is a multiple of 5; an estimate of
  \<open>100000\<close> gives a gas limit of \<open>120000\<close>.
\<close>

theorem gas_limit_is_floor:
  assumes "estimated < 2 ^ 50"
  shows "gas_with_margin estimated = Inr ((6 * estimated) div 5) \<and>
    (estimate_gas (node w f h) = Inr estimated \<longrightarrow>
       (\<forall>t. SendRawTransaction t \<in> set (snd (execute_tx w f h sig)) \<or>
            SendRawTransaction t \<in> set (snd (utils_execute_tx w f h sig)) \<longrightarrow>
            tx_gas t = (6 * estimated) div 5)) \<and>
    int ((6 * estimated) div 5) = \<lfloor>(of_nat estimated :: rat) * (6 / 5)\<rfloor> \<and>
    (int ((6 * estimated) div 5) = \<lceil>(of_nat estimated :: rat) * (6 / 5)\<rceil> \<longleftrightarrow> 5 dvd estimated) \<and>
    gas_with_margin 100000 = Inr 120000"
proof -
  have g: "gas_with_margin estimated = Inr ((6 * estimated) div 5)"
    using assms by (rule gas_with_margin_floor)
  have s: "tx_gas t = (6 * estimated) div 5"
    if "estimate_gas (node w f h) = Inr estimated"
      "SendRawTransaction t \<in> set (snd (execute_tx w f h sig)) \<or>
       SendRawTransaction t \<in> set (snd (utils_execute_tx w f h sig))" for t
    using that execute_tx_sends [of t w f h sig] utils_execute_tx_sends [of t w f h sig] g
    by auto
  have "(of_nat estimated :: rat) * (6 / 5) = of_int (6 * int estimated) / of_int 5"
    by simp
  then have fl: "\<lfloor>(of_nat estimated :: rat) * (6 / 5)\<rfloor> = (6 * int estimated) div 5"
    by (simp only: floor_divide_of_int_eq)
  have ce: "\<lceil>(of_nat estimated :: rat) * (6 / 5)\<rceil> = - ((- (6 * int estimated)) div 5)"
  proof -
    have "- ((of_nat estimated :: rat) * (6 / 5)) = of_int (- (6 * int estimated)) / of_int 5"
      by simp
    then have "\<lfloor>- ((of_nat estimated :: rat) * (6 / 5))\<rfloor> = (- (6 * int estimated)) div 5"
      by (simp only: floor_divide_of_int_eq)
    then show ?thesis by (simp only: ceiling_def)
  qed
  have i: "int ((6 * estimated) div 5) = (6 * int estimated) div 5"
    by (simp add: zdiv_int)
  have d: "((6 * int estimated) div 5 = - ((- (6 * int estimated)) div 5)) = (5 dvd estimated)"
  proof -
    have "6 * int estimated = 5 * int estimated + int estimated"
      by simp
    then have "(5 :: int) dvd 6 * int estimated \<longleftrightarrow> 5 dvd int estimated"
      by (simp only: dvd_add_right_iff dvd_triv_left)
    also have "\<dots> \<longleftrightarrow> 5 dvd estimated"
      using int_dvd_int_iff [of 5 estimated] by simp
    finally have a: "(5 dvd estimated) = ((6 * int estimated) mod 5 = 0)"
      by (simp only: dvd_eq_mod_eq_0)
    show ?thesis
      unfolding a by (simp add: zdiv_zminus1_eq_if)
  qed
  have p3: "int ((6 * estimated) div 5) = \<lfloor>(of_nat estimated :: rat) * (6 / 5)\<rfloor>"
    by (simp only: fl i)
  have p4: "(int ((6 * estimated) div 5) = \<lceil>(of_nat estimated :: rat) * (6 / 5)\<rceil>) =
      (5 dvd estimated)"
    by (simp only: ce i d)
  have h: "gas_with_margin 100000 = Inr 120000"
    using gas_with_margin_floor [of 100000] by simp
  show ?thesis
    using g s p3 p4 h by blast
qed

text \<open>An estimate of 7 gives a limit of 8, the floor of 8.4, where the ceiling is 9;
  in \<open>world_A\<close> the node estimates \<open>100000\<close> and the transaction is sent with a limit of
  \<open>120000\<close>.\<close>

theorem gas_limit_is_floor_witness:
  "(7 :: nat) < 2 ^ 50 \<and> gas_with_margin 7 = Inr 8 \<and>
   \<lfloor>(of_nat 7 :: rat) * (6 / 5)\<rfloor> = 8 \<and> \<lceil>(of_nat 7 :: rat) * (6 / 5)\<rceil> = 9 \<and>
   SendRawTransaction
     \<lparr>tx_function = ''seizeAssets'', tx_args = [[1]], tx_nonce = 7, tx_gasPrice = 1,
      tx_gas = 120000\<rparr> \<in> set (snd (execute_tx world_A ''seizeAssets'' [1] None))"
proof -
  have b: "(7 :: nat) < 2 ^ 50" by simp
  have c: "(100000 :: nat) < 2 ^ 50" by simp
  have e: "estimate_gas (node world_A ''seizeAssets'' [1]) = Inr 100000"
    by (simp add: world_defs)
  have g: "gas_with_margin 100000 = Inr 120000"
    using gas_limit_is_floor [OF c] by simp
  have t: "SendRawTransaction
     \<lparr>tx_function = ''seizeAssets'', tx_args = [[1]], tx_nonce = 7, tx_gasPrice = 1,
      tx_gas = 120000\<rparr> \<in> set (snd (execute_tx world_A ''seizeAssets'' [1] None))"
    by (simp add: execute_tx_def submit_def node_call_def world_defs g)
  have "\<lfloor>(of_nat 7 :: rat) * (6 / 5)\<rfloor> = 8" "\<lceil>(of_nat 7 :: rat) * (6 / 5)\<rceil> = 9"
    by (simp_all add: floor_eq_iff ceiling_eq_iff)
  then show ?thesis
    using gas_limit_is_floor [OF b, of world_A "''seizeAssets''" "[1]" None] t by simp
qed

text \<open>The claim as stated fails at an estimate of 1: the limit is 1, and the ceiling of
  1.2 is 2.\<close>

theorem gas_limit_is_ceiling_counterexample:
  "gas_with_margin 1 = Inr 1 \<and> \<lceil>(of_nat 1 :: rat) * (6 / 5)\<rceil> = 2"
proof -
  have "gas_with_margin 1 = Inr 1"
    using gas_with_margin_floor [of 1] by simp
  moreover have "\<lceil>(of_nat 1 :: rat) * (6 / 5)\<rceil> = 2"
    by (simp add: ceiling_eq_iff)
  ultimately show ?thesis by simp
qed

text \<open>
  Claim C8. Whenever \<open>execute_tx\<close> has sent a transaction and the receipt of that
  transaction has a status other than 1, the call raises \<open>RuntimeError\<close> to its caller.
  In \<open>handle_intent\<close>, when the submission of \<open>verifyIntent\<close> for the intent fails (for
  the signature the signer returned), the handler performs no action of a submission of
  \<open>seizeAssets\<close>: not even the lookup of the function that opens \<open>execute_tx\<close>.
\<close>

theorem reverted_receipt_aborts:
  "(LogSent f tx_hash \<in> set (snd (execute_tx w f h sig)) \<longrightarrow>
    wait_for_transaction_receipt (node w f h) tx_hash = Inr receipt \<longrightarrow>
    status receipt \<noteq> 1 \<longrightarrow>
      fst (execute_tx w f h sig) = Inl (RuntimeError f (status receipt))) \<and>
   ((\<forall>s. fst (sign_intent w (intentHash ev)) = Inr s \<longrightarrow>
         (\<exists>e. fst (execute_tx w ''verifyIntent'' (intentHash ev) (Some s)) = Inl e)) \<longrightarrow>
      (\<exists>new. trace (snd (handle_intent cfg w ev st)) = trace st @ new \<and>
             (\<forall>a \<in> set new. \<not> tx_act ''seizeAssets'' a)))"
  using execute_tx_reverted [of f tx_hash w h sig receipt] handle_intent_no_seize [of w ev cfg st]
  by blast

text \<open>A node whose receipt for \<open>verifyIntent\<close> has status 0: the submission raises, and
  the handler does nothing for \<open>seizeAssets\<close>; in \<open>world_A\<close>, where the first submission
  is mined, the second one follows.\<close>

theorem reverted_receipt_aborts_witness:
  "LogSent ''verifyIntent'' [2]
     \<in> set (snd (execute_tx world_reverted ''verifyIntent'' [1] (Some [9]))) \<and>
   wait_for_transaction_receipt (node world_reverted ''verifyIntent'' [1]) [2]
     = Inr \<lparr>status = 0, gasUsed = 21000\<rparr> \<and>
   fst (execute_tx world_reverted ''verifyIntent'' [1] (Some [9]))
     = Inl (RuntimeError ''verifyIntent'' 0) \<and>
   fst (sign_intent world_reverted [1]) = Inr [9] \<and>
   (\<exists>new. trace (snd (handle_intent (CRA_CONFIG []) world_reverted
                        \<lparr>blockNumber = 1, intentHash = [1]\<rparr> init_state))
            = trace init_state @ new \<and>
          list_all (\<lambda>a. \<not> tx_act ''seizeAssets'' a) new) \<and>
   NodeCall ''seizeAssets'' ''getattr''
     \<in> set (trace (snd (handle_intent (CRA_CONFIG []) world_A
                          \<lparr>blockNumber = 1, intentHash = [1]\<rparr> init_state)))"
proof -
  have l: "LogSent ''verifyIntent'' [2]
     \<in> set (snd (execute_tx world_reverted ''verifyIntent'' [1] (Some [9])))"
    by (simp add: exec_defs world_defs gas_100000)
  have r: "wait_for_transaction_receipt (node world_reverted ''verifyIntent'' [1]) [2]
     = Inr \<lparr>status = 0, gasUsed = 21000\<rparr>"
    by (simp add: world_defs)
  have s: "fst (sign_intent world_reverted [1]) = Inr [9]"
    by (simp add: exec_defs world_defs)
  note t = reverted_receipt_aborts [of "''verifyIntent''" "[2]" world_reverted "[1]" "Some [9]"
      "\<lparr>status = 0, gasUsed = 21000\<rparr>" "\<lparr>blockNumber = 1, intentHash = [1]\<rparr>"
      "CRA_CONFIG []" init_state]
  from t l r have v: "fst (execute_tx world_reverted ''verifyIntent'' [1] (Some [9]))
     = Inl (RuntimeError ''verifyIntent'' 0)"
    by simp
  have "\<forall>s. fst (sign_intent world_reverted (intentHash \<lparr>blockNumber = 1, intentHash = [1]\<rparr>)) = Inr s \<longrightarrow>
         (\<exists>e. fst (execute_tx world_reverted ''verifyIntent''
                 (intentHash \<lparr>blockNumber = 1, intentHash = [1]\<rparr>) (Some s)) = Inl e)"
    using s v by simp
  with t have n: "\<exists>new. trace (snd (handle_intent (CRA_CONFIG []) world_reverted
                        \<lparr>blockNumber = 1, intentHash = [1]\<rparr> init_state))
            = trace init_state @ new \<and>
          list_all (\<lambda>a. \<not> tx_act ''seizeAssets'' a) new"
    by (simp only: list_all_iff)
  have a: "NodeCall ''seizeAssets'' ''getattr''
     \<in> set (trace (snd (handle_intent (CRA_CONFIG []) world_A
                          \<lparr>blockNumber = 1, intentHash = [1]\<rparr> init_state)))"
    by (simp add: exec_defs audit_defs py_defs world_defs gas_100000 io_defs)
  show ?thesis
    using l r v s n a by blast
qed



text \<open>
  Claim C1, at the input where the code departs from it. In \<open>world_A\<close> the contract
  answers a salt that is not the official one, so \<open>check_contract_salt\<close> of utils.py
  raises, and with it the \<open>sign_intent\<close> of utils.py. The audit of intent \<open>[1]\<close>
  passes. \<open>handle_intent\<close> of ghost\_oracle.py, which calls the \<open>sign_intent\<close> and
  \<open>execute_tx\<close> of its own module, never asks for the salt: it signs the intent, sends
  \<open>verifyIntent\<close> and \<open>seizeAssets\<close>, and adds the intent to \<open>processed\<close>.
\<close>

theorem handle_intent_signs_without_salt_guard:
  "CONTRACT_SALT world_A = Inr ''0xSOMEONE_ELSE'' \<and>
   ''0xSOMEONE_ELSE'' \<noteq> OFFICIAL_SALT \<and>
   fst (check_contract_salt world_A) = Inl (Exception ''Unauthorized contract: salt mismatch'') \<and>
   fst (utils_sign_intent world_A [1]) = Inl (Exception ''Unauthorized contract: salt mismatch'') \<and>
   fst (perform_cra_audit (CRA_CONFIG []) world_A [1]) = Inr True \<and>
   handle_intent (CRA_CONFIG []) world_A intent_1 init_state =
     (Inr (),
      \<lparr>processed = {[1]},
       trace =
         [LogNewIntent [1], HttpGet [1], Enter ''timestamp'', ClockRead, Enter ''amount'',
          Enter ''geography'', Enter ''externalRisk'', LogCheck ''timestamp'' True,
          LogCheck ''amount'' True, LogCheck ''geography'' True,
          LogCheck ''externalRisk'' True, SignHash [1],
          NodeCall ''verifyIntent'' ''getattr'',
          NodeCall ''verifyIntent'' ''get_transaction_count'',
          NodeCall ''verifyIntent'' ''gas_price'',
          NodeCall ''verifyIntent'' ''build_transaction'',
          NodeCall ''verifyIntent'' ''estimate_gas'',
          SendRawTransaction
            \<lparr>tx_function = ''verifyIntent'', tx_args = [[1], [9]], tx_nonce = 7,
             tx_gasPrice = 1, tx_gas = 120000\<rparr>,
          LogSent ''verifyIntent'' [2],
          NodeCall ''verifyIntent'' ''wait_for_transaction_receipt'',
          LogMined ''verifyIntent'' 90000,
          NodeCall ''seizeAssets'' ''getattr'',
          NodeCall ''seizeAssets'' ''get_transaction_count'',
          NodeCall ''seizeAssets'' ''gas_price'',
          NodeCall ''seizeAssets'' ''build_transaction'',
          NodeCall ''seizeAssets'' ''estimate_gas'',
          SendRawTransaction
            \<lparr>tx_function = ''seizeAssets'', tx_args = [[1]], tx_nonce = 7,
             tx_gasPrice = 1, tx_gas = 120000\<rparr>,
          LogSent ''seizeAssets'' [2],
          NodeCall ''seizeAssets'' ''wait_for_transaction_receipt'',
          LogMined ''seizeAssets'' 90000,
          ProcessedAdd [1]]\<rparr>)"
proof -
  have 1: "CONTRACT_SALT world_A = Inr ''0xSOMEONE_ELSE''"
    by (simp add: world_defs)
  have 2: "''0xSOMEONE_ELSE'' \<noteq> OFFICIAL_SALT"
    by (simp add: OFFICIAL_SALT_def)
  have 3: "fst (check_contract_salt world_A) = Inl (Exception ''Unauthorized contract: salt mismatch'')"
    by (simp add: check_contract_salt_def 1 2)
  have 4: "fst (utils_sign_intent world_A [1]) = Inl (Exception ''Unauthorized contract: salt mismatch'')"
    using 3 by (simp add: utils_sign_intent_def fst_bind)
  have 5: "fst (perform_cra_audit (CRA_CONFIG []) world_A [1]) = Inr True"
    by (simp add: audit_defs py_defs world_defs io_defs)
  have 6: "handle_intent (CRA_CONFIG []) world_A intent_1 init_state =
     (Inr (),
      \<lparr>processed = {[1]},
       trace =
         [LogNewIntent [1], HttpGet [1], Enter ''timestamp'', ClockRead, Enter ''amount'',
          Enter ''geography'', Enter ''externalRisk'', LogCheck ''timestamp'' True,
          LogCheck ''amount'' True, LogCheck ''geography'' True,
          LogCheck ''externalRisk'' True, SignHash [1],
          NodeCall ''verifyIntent'' ''getattr'',
          NodeCall ''verifyIntent'' ''get_transaction_count'',
          NodeCall ''verifyIntent'' ''gas_price'',
          NodeCall ''verifyIntent'' ''build_transaction'',
          NodeCall ''verifyIntent'' ''estimate_gas'',
          SendRawTransaction
            \<lparr>tx_function = ''verifyIntent'', tx_args = [[1], [9]], tx_nonce = 7,
             tx_gasPrice = 1, tx_gas = 120000\<rparr>,
          LogSent ''verifyIntent'' [2],
          NodeCall ''verifyIntent'' ''wait_for_transaction_receipt'',
          LogMined ''verifyIntent'' 90000,
          NodeCall ''seizeAssets'' ''getattr'',
          NodeCall ''seizeAssets'' ''get_transaction_count'',
          NodeCall ''seizeAssets'' ''gas_price'',
          NodeCall ''seizeAssets'' ''build_transaction'',
          NodeCall ''seizeAssets'' ''estimate_gas'',
          SendRawTransaction
            \<lparr>tx_function = ''seizeAssets'', tx_args = [[1]], tx_nonce = 7,
             tx_gasPrice = 1, tx_gas = 120000\<rparr>,
          LogSent ''seizeAssets'' [2],
          NodeCall ''seizeAssets'' ''wait_for_transaction_receipt'',
          LogMined ''seizeAssets'' 90000,
          ProcessedAdd [1]]\<rparr>)"
    by (simp add: exec_defs audit_defs py_defs world_defs gas_100000 io_defs)
  show ?thesis
    using 1 2 3 4 5 6 by blast
qed

text \<open>
  Claim C5, as amended. A run of \<open>monitor_job\<close> creates a new filter that starts at the
  block that is the latest at that moment, and hands to \<open>handle_intent\<close> the entries this
  filter reports, in the order reported, until one raises. So the intents announced in
  a run are a subsequence of the reported entries; where the filter reports only events
  of its own block range, each comes from a block not older than the latest one; the
  run adds to \<open>processed\<close> only identifiers of reported entries, and all of them when no
  exception ended the run. Nothing but \<open>processed\<close> is carried from one run to the
  next: an event declared in a block older than the latest block of the next run is
  not delivered by that run.
\<close>

theorem monitor_delivers_latest_filter:
  assumes "create_filter w = Inr n" and "get_new_entries w n = Inr entries"
  shows "\<exists>new. trace (monitor_job cfg w st) = trace st @ new \<and>
           subseq (announced new) (map intentHash entries) \<and>
           ((\<forall>e \<in> set entries. n \<le> blockNumber e) \<longrightarrow>
              (\<forall>h \<in> set (announced new).
                 \<exists>e \<in> set entries. intentHash e = h \<and> n \<le> blockNumber e)) \<and>
           processed st \<subseteq> processed (monitor_job cfg w st) \<and>
           processed (monitor_job cfg w st) \<subseteq> processed st \<union> intentHash ` set entries \<and>
           ((\<forall>e. LogMonitorError e \<notin> set new) \<longrightarrow>
              intentHash ` set entries \<subseteq> processed (monitor_job cfg w st))"
proof -
  obtain new where new: "trace (monitor_job cfg w st) = trace st @ new"
    "subseq (announced new) (map intentHash entries)"
    "processed st \<subseteq> processed (monitor_job cfg w st)"
    "processed (monitor_job cfg w st) \<subseteq> processed st \<union> intentHash ` set entries"
    "(\<forall>e. LogMonitorError e \<notin> set new) \<longrightarrow>
       intentHash ` set entries \<subseteq> processed (monitor_job cfg w st)"
    using monitor_job_step [OF assms, of cfg st] by blast
  have "set (announced new) \<subseteq> set (map intentHash entries)"
  proof
    fix h assume "h \<in> set (announced new)"
    with new(2) obtain y where "y \<in> set (map intentHash entries)" "h = y"
      by (rule list_emb_set)
    then show "h \<in> set (map intentHash entries)" by simp
  qed
  then have "\<forall>h \<in> set (announced new). \<exists>e \<in> set entries. intentHash e = h \<and> n \<le> blockNumber e"
    if "\<forall>e \<in> set entries. n \<le> blockNumber e"
    using that by auto
  then show ?thesis
    using new by (intro exI [of _ new]) blast
qed

text \<open>A run at the moment block 6, which declares intent \<open>[1]\<close>, is the latest: the
  intent is announced and processed.\<close>

theorem monitor_delivers_latest_filter_witness:
  "create_filter (tick_at 6 [intent_1]) = Inr 6 \<and>
   get_new_entries (tick_at 6 [intent_1]) 6 = Inr [intent_1] \<and>
   6 \<le> blockNumber intent_1 \<and>
   announced (trace (monitor_job (CRA_CONFIG []) (tick_at 6 [intent_1]) init_state)) = [[1]] \<and>
   processed (monitor_job (CRA_CONFIG []) (tick_at 6 [intent_1]) init_state) = {[1]}"
proof -
  have c: "create_filter (tick_at 6 [intent_1]) = Inr 6"
    by (simp add: world_defs)
  have g: "get_new_entries (tick_at 6 [intent_1]) 6 = Inr [intent_1]"
    by (simp add: world_defs)
  have b: "6 \<le> blockNumber intent_1"
    by (simp add: intent_1_def)
  have a: "announced (trace (monitor_job (CRA_CONFIG []) (tick_at 6 [intent_1]) init_state)) = [[1]]"
    by (simp add: monitor_defs exec_defs audit_defs py_defs world_defs gas_100000 io_defs)
  obtain new where
    "processed (monitor_job (CRA_CONFIG []) (tick_at 6 [intent_1]) init_state)
       \<subseteq> processed init_state \<union> intentHash ` set [intent_1]"
    "(\<forall>e. LogMonitorError e \<notin> set new) \<longrightarrow>
       intentHash ` set [intent_1]
         \<subseteq> processed (monitor_job (CRA_CONFIG []) (tick_at 6 [intent_1]) init_state)"
    "trace (monitor_job (CRA_CONFIG []) (tick_at 6 [intent_1]) init_state)
       = trace init_state @ new"
    using monitor_delivers_latest_filter [OF c g, of "CRA_CONFIG []" init_state] by blast
  moreover have "LogMonitorError e
      \<notin> set (trace (monitor_job (CRA_CONFIG []) (tick_at 6 [intent_1]) init_state))" for e
    by (simp add: monitor_defs exec_defs audit_defs py_defs world_defs gas_100000 io_defs)
  ultimately have "processed (monitor_job (CRA_CONFIG []) (tick_at 6 [intent_1]) init_state) = {[1]}"
    by (auto simp: init_state_def intent_1_def)
  then show ?thesis
    using c g b a by blast
qed

text \<open>
  The claim as stated fails for an event that occurs between two runs. The first run
  sees block 5 as the latest; intent \<open>[1]\<close> is declared in block 6; at the second run
  the latest block is 8. A filter from block 5, the point the first run observed,
  would report the event; the new filter from block 8 does not, and the event is never
  handed to \<open>handle_intent\<close>.
\<close>

theorem monitor_misses_event_between_ticks_counterexample:
  "create_filter (tick_at 5 []) = Inr 5 \<and>
   blockNumber intent_1 = 6 \<and>
   create_filter (tick_at 8 [intent_1]) = Inr 8 \<and>
   get_new_entries (tick_at 8 [intent_1]) 5 = Inr [intent_1] \<and>
   announced (trace (scheduler (CRA_CONFIG []) [tick_at 5 [], tick_at 8 [intent_1]] init_state)) = [] \<and>
   processed (scheduler (CRA_CONFIG []) [tick_at 5 [], tick_at 8 [intent_1]] init_state) = {}"
  by (simp add: monitor_defs exec_defs audit_defs py_defs world_defs io_defs)

end
